theory Spec2Isabelle
  imports Main "HOL-Library.Finite_Map" "HOL-Library.Multiset"
begin

section \<open>Data model (models.go)\<close>

text \<open>
  Go values are embedded as follows.
  \<^item> \<open>time.Time\<close> and \<open>time.Duration\<close> are integers (nanoseconds); \<open>Time.Sub\<close> saturates at the
    ends of the 64-bit duration range, as the Go library documents.
  \<^item> A \<open>*Connection\<close> is an address into a store of \<open>Connection\<close> structs: the pools hold
    addresses, so a write through one pointer is seen through every alias and \<open>c == conn\<close> compares
    addresses.
  \<^item> A Go \<open>map\<close> is a finite map. Where the code ranges over a map, the order in which the runtime
    enumerates the keys is not specified; the model takes that order as an argument
    (see \<open>range_order\<close>).
  \<^item> A runtime panic is the error value \<open>Panic\<close>; it is never inspected by a caller, only passed on.
\<close>

type_synonym time = int
type_synonym duration = int

definition maxDuration :: duration where
  "maxDuration = 2 ^ 63 - 1"

definition minDuration :: duration where
  "minDuration = - (2 ^ 63)"

definition time_Sub :: "time \<Rightarrow> time \<Rightarrow> duration" where
  "time_Sub t u =
     (let d = t - u in
      if d > maxDuration then maxDuration else if d < minDuration then minDuration else d)"

record TokenTable =
  tt_Token :: string
  tt_Refresh :: string

record Connection =
  URL :: string
  Token :: TokenTable
  NodeID :: string
  IsLeader :: bool
  Mode :: string
  HTTPClient :: nat
  LastUsed :: time
  LastRefresh :: time
  Created :: time

type_synonym ref = nat
type_synonym heap = "ref \<Rightarrow> Connection"

record ConnectionPool =
  nodeConnections :: "(string, ref list) fmap"
  nodeRoundRobinIndices :: "(string, nat) fmap"
  nodeOrder :: "string list"
  nodeOrderIndex :: nat
  isWritePool :: bool
  maxPool :: int
  maxWritePool :: int
  nodeHTTPClients :: "(string, nat) fmap"

datatype error =
    NoConnections
  | NoConnectionsDespiteNodes
  | NoConnectionsForNode string
  | NoDBConnection
  | AuthRequired string
  | RequestBuildFailed string
  | Transport string
  | NoRefreshToken
  | RefreshRequestFailed error
  | ConnectRequestFailed error
  | DecodeFailed
  | RequestError string
  | UnexpectedFormat
  | TokenNotFound
  | ApiCallFailedAfterRefresh error
  | FallbackToLeaderFailed error
  | ApiCallFailed error
  | Panic string

definition range_order :: "'k list \<Rightarrow> ('k, 'v) fmap \<Rightarrow> bool" where
  "range_order ks m = (distinct ks \<and> set ks = fmdom' m)"

section \<open>ConnectionPool (pool.go)\<close>

definition NewConnectionPool :: "bool \<Rightarrow> int \<Rightarrow> int \<Rightarrow> ConnectionPool" where
  "NewConnectionPool isWrite maxRead maxWrite =
     \<lparr>nodeConnections = fmempty, nodeRoundRobinIndices = fmempty, nodeOrder = [],
      nodeOrderIndex = 0, isWritePool = isWrite, maxPool = maxRead, maxWritePool = maxWrite,
      nodeHTTPClients = fmempty\<rparr>"

text \<open>Reading a Go map at a missing key gives the zero value: \<open>nil\<close> for a slice, 0 for an int.\<close>

definition conns_at :: "ConnectionPool \<Rightarrow> string \<Rightarrow> ref list" where
  "conns_at p nodeID = (case fmlookup (nodeConnections p) nodeID of None \<Rightarrow> [] | Some cs \<Rightarrow> cs)"

definition rr_at :: "ConnectionPool \<Rightarrow> string \<Rightarrow> nat" where
  "rr_at p nodeID = (case fmlookup (nodeRoundRobinIndices p) nodeID of None \<Rightarrow> 0 | Some i \<Rightarrow> i)"

definition Size :: "ConnectionPool \<Rightarrow> int" where
  "Size p = (\<Sum>nodeID \<in> fmdom' (nodeConnections p). int (length (conns_at p nodeID)))"

definition SizeForNode :: "ConnectionPool \<Rightarrow> string \<Rightarrow> int" where
  "SizeForNode p nodeID =
     (case fmlookup (nodeConnections p) nodeID of Some conns \<Rightarrow> int (length conns) | None \<Rightarrow> 0)"

definition Add :: "heap \<Rightarrow> ref \<Rightarrow> ConnectionPool \<Rightarrow> ConnectionPool" where
  "Add h conn p =
     (let nodeID = NodeID (h conn);
          p1 = (if fmlookup (nodeConnections p) nodeID = None
                then p\<lparr>nodeConnections := fmupd nodeID [] (nodeConnections p),
                       nodeRoundRobinIndices := fmupd nodeID 0 (nodeRoundRobinIndices p),
                       nodeOrder := nodeOrder p @ [nodeID]\<rparr>
                else p)
      in p1\<lparr>nodeConnections := fmupd nodeID (conns_at p1 nodeID @ [conn]) (nodeConnections p1)\<rparr>)"

text \<open>AddBatch first groups the batch by node id, in batch order.\<close>

definition group_conn :: "heap \<Rightarrow> ref \<Rightarrow> (string, ref list) fmap \<Rightarrow> (string, ref list) fmap" where
  "group_conn h conn m =
     (let nodeID = NodeID (h conn)
      in fmupd nodeID ((case fmlookup m nodeID of None \<Rightarrow> [] | Some cs \<Rightarrow> cs) @ [conn]) m)"

definition connsByNode :: "heap \<Rightarrow> ref list \<Rightarrow> (string, ref list) fmap" where
  "connsByNode h conns = fold (group_conn h) conns fmempty"

text \<open>The body of AddBatch's second loop, for one entry of the grouped map.\<close>

definition add_node_batch :: "string \<Rightarrow> ref list \<Rightarrow> ConnectionPool \<Rightarrow> ConnectionPool" where
  "add_node_batch nodeID nodeConns p =
     (let p1 = (if fmlookup (nodeConnections p) nodeID = None
                then p\<lparr>nodeConnections := fmupd nodeID [] (nodeConnections p),
                       nodeRoundRobinIndices := fmupd nodeID 0 (nodeRoundRobinIndices p),
                       nodeOrder := nodeOrder p @ [nodeID]\<rparr>
                else p)
      in p1\<lparr>nodeConnections := fmupd nodeID (conns_at p1 nodeID @ nodeConns) (nodeConnections p1)\<rparr>)"

text \<open>\<open>ks\<close> is the order in which the runtime ranges over the grouped map.\<close>

definition batch_step :: "(string, ref list) fmap \<Rightarrow> string \<Rightarrow> ConnectionPool \<Rightarrow> ConnectionPool" where
  "batch_step byNode nodeID q =
     (case fmlookup byNode nodeID of None \<Rightarrow> q | Some nodeConns \<Rightarrow> add_node_batch nodeID nodeConns q)"

definition AddBatch :: "heap \<Rightarrow> string list \<Rightarrow> ref list \<Rightarrow> ConnectionPool \<Rightarrow> ConnectionPool" where
  "AddBatch h ks conns p =
     (if length conns = 0 then p else fold (batch_step (connsByNode h conns)) ks p)"

text \<open>The loop \<open>for i, c := range xs { if c == x { ... return } }\<close>: the first index holding \<open>x\<close>.\<close>

fun index_from :: "'a \<Rightarrow> 'a list \<Rightarrow> nat \<Rightarrow> nat option" where
  "index_from x [] i = None"
| "index_from x (y # ys) i = (if y = x then Some i else index_from x ys (Suc i))"

text \<open>
  The loop over \<open>nodeOrder\<close> that Remove and RemoveIdleConnections both run once a bucket is empty:
  cut the first occurrence of the node id and reset the node cursor when it points past the end.
\<close>

definition remove_from_nodeOrder :: "string \<Rightarrow> ConnectionPool \<Rightarrow> ConnectionPool" where
  "remove_from_nodeOrder nodeID p =
     (case index_from nodeID (nodeOrder p) 0 of
        None \<Rightarrow> p
      | Some i \<Rightarrow>
          (let order' = take i (nodeOrder p) @ drop (Suc i) (nodeOrder p)
           in p\<lparr>nodeOrder := order',
                nodeOrderIndex := (if nodeOrderIndex p \<ge> length order' \<and> length order' > 0
                                   then 0 else nodeOrderIndex p)\<rparr>))"

definition Remove :: "heap \<Rightarrow> ref \<Rightarrow> ConnectionPool \<Rightarrow> bool \<times> ConnectionPool" where
  "Remove h conn p =
     (let nodeID = NodeID (h conn) in
      case fmlookup (nodeConnections p) nodeID of
        None \<Rightarrow> (False, p)
      | Some nodeConns \<Rightarrow>
          (case index_from conn nodeConns 0 of
             None \<Rightarrow> (False, p)
           | Some i \<Rightarrow>
               (let rest = take i nodeConns @ drop (Suc i) nodeConns;
                    p1 = p\<lparr>nodeConnections := fmupd nodeID rest (nodeConnections p)\<rparr>
                in if length rest = 0
                   then (let p2 = p1\<lparr>nodeConnections := fmdrop nodeID (nodeConnections p1),
                                      nodeRoundRobinIndices := fmdrop nodeID (nodeRoundRobinIndices p1)\<rparr>;
                             p3 = (if isWritePool p2
                                   then p2\<lparr>nodeHTTPClients := fmdrop nodeID (nodeHTTPClients p2)\<rparr>
                                   else p2)
                         in (True, remove_from_nodeOrder nodeID p3))
                   else (True, p1))))"

text \<open>
  GetConnection: the scan \<open>for i := 0; i < len(p.nodeOrder); i++\<close>. Indexing a bucket at a cursor
  that is out of range is a runtime panic in Go.
\<close>

function GetConnection_loop ::
  "time \<Rightarrow> heap \<Rightarrow> ConnectionPool \<Rightarrow> nat \<Rightarrow> nat \<Rightarrow> (error + ref) \<times> heap \<times> ConnectionPool" where
  "GetConnection_loop now h p startNodeIdx i =
     (if i < length (nodeOrder p) then
        (let nodeIdx = (startNodeIdx + i) mod length (nodeOrder p);
             nodeID = nodeOrder p ! nodeIdx;
             nodeConns = conns_at p nodeID
         in if length nodeConns > 0 then
              (let connIdx = rr_at p nodeID in
               if connIdx < length nodeConns then
                 (let conn = nodeConns ! connIdx
                  in (Inr conn,
                      h(conn := (h conn)\<lparr>LastUsed := now\<rparr>),
                      p\<lparr>nodeRoundRobinIndices :=
                           fmupd nodeID ((connIdx + 1) mod length nodeConns) (nodeRoundRobinIndices p),
                        nodeOrderIndex := (nodeIdx + 1) mod length (nodeOrder p)\<rparr>))
               else (Inl (Panic ''index out of range''), h, p))
            else GetConnection_loop now h p startNodeIdx (i + 1))
      else (Inl NoConnectionsDespiteNodes, h, p))"
  by pat_completeness auto
termination
  by (relation "measure (\<lambda>(now, h, p, startNodeIdx, i). length (nodeOrder p) - i)") auto

declare GetConnection_loop.simps [simp del]

definition GetConnection ::
  "time \<Rightarrow> heap \<Rightarrow> ConnectionPool \<Rightarrow> (error + ref) \<times> heap \<times> ConnectionPool" where
  "GetConnection now h p =
     (if length (nodeOrder p) = 0 then (Inl NoConnections, h, p)
      else GetConnection_loop now h p (nodeOrderIndex p) 0)"

definition GetConnectionForNode ::
  "time \<Rightarrow> heap \<Rightarrow> string \<Rightarrow> ConnectionPool \<Rightarrow> (error + ref) \<times> heap \<times> ConnectionPool" where
  "GetConnectionForNode now h nodeID p =
     (case fmlookup (nodeConnections p) nodeID of
        None \<Rightarrow> (Inl (NoConnectionsForNode nodeID), h, p)
      | Some nodeConns \<Rightarrow>
          if length nodeConns = 0 then (Inl (NoConnectionsForNode nodeID), h, p)
          else (let connIdx = rr_at p nodeID in
                if connIdx < length nodeConns then
                  (let conn = nodeConns ! connIdx
                   in (Inr conn,
                       h(conn := (h conn)\<lparr>LastUsed := now\<rparr>),
                       p\<lparr>nodeRoundRobinIndices :=
                            fmupd nodeID ((connIdx + 1) mod length nodeConns) (nodeRoundRobinIndices p)\<rparr>))
                else (Inl (Panic ''index out of range''), h, p)))"

definition is_idle :: "heap \<Rightarrow> time \<Rightarrow> duration \<Rightarrow> ref \<Rightarrow> bool" where
  "is_idle h now idleTimeout conn = (time_Sub now (LastUsed (h conn)) > idleTimeout)"

text \<open>
  RemoveIdleConnections, for one bucket. Lines 273-287: how many of its sessions will go.
\<close>

definition willRemove_of :: "heap \<Rightarrow> time \<Rightarrow> duration \<Rightarrow> int \<Rightarrow> ref list \<Rightarrow> int" where
  "willRemove_of h now idleTimeout minSizePerNode conns =
     (let idle = filter (is_idle h now idleTimeout) conns;
          canRemove = int (length conns) - minSizePerNode
      in min (int (length idle)) canRemove)"

text \<open>Lines 293-299: the sessions that stay, the active ones and then the first idle ones.\<close>

definition newConnList_of :: "heap \<Rightarrow> time \<Rightarrow> duration \<Rightarrow> int \<Rightarrow> ref list \<Rightarrow> ref list" where
  "newConnList_of h now idleTimeout willRemove conns =
     (let idle = filter (is_idle h now idleTimeout) conns;
          active = filter (\<lambda>c. \<not> is_idle h now idleTimeout c) conns;
          keepIdle = int (length idle) - willRemove
      in if keepIdle > 0 then active @ take (nat keepIdle) idle else active)"

text \<open>
  Lines 301-327: store the new bucket, reset the node's cursor when it is out of range, and
  drop the node when nothing is left.
\<close>

definition replace_bucket :: "string \<Rightarrow> ref list \<Rightarrow> ConnectionPool \<Rightarrow> ConnectionPool" where
  "replace_bucket nodeID newConnList p =
     (let p1 = p\<lparr>nodeConnections := fmupd nodeID newConnList (nodeConnections p)\<rparr>;
          p2 = (if rr_at p1 nodeID \<ge> length newConnList
                then p1\<lparr>nodeRoundRobinIndices := fmupd nodeID 0 (nodeRoundRobinIndices p1)\<rparr>
                else p1)
      in if length newConnList = 0
         then remove_from_nodeOrder nodeID
                (p2\<lparr>nodeConnections := fmdrop nodeID (nodeConnections p2),
                    nodeRoundRobinIndices := fmdrop nodeID (nodeRoundRobinIndices p2)\<rparr>)
         else p2)"

text \<open>The body of the loop over the buckets, with the running \<open>removed\<close> count.\<close>

definition reap_node ::
  "heap \<Rightarrow> time \<Rightarrow> duration \<Rightarrow> int \<Rightarrow> string \<Rightarrow> int \<times> ConnectionPool \<Rightarrow> int \<times> ConnectionPool" where
  "reap_node h now idleTimeout minSizePerNode nodeID s =
     (case fmlookup (nodeConnections (snd s)) nodeID of
        None \<Rightarrow> s
      | Some conns \<Rightarrow>
          if int (length conns) \<le> minSizePerNode then s
          else
            (let willRemove = willRemove_of h now idleTimeout minSizePerNode conns
             in if willRemove \<le> 0 then s
                else (fst s + willRemove,
                      replace_bucket nodeID (newConnList_of h now idleTimeout willRemove conns) (snd s))))"

text \<open>\<open>ks\<close> is the order in which the runtime ranges over \<open>p.nodeConnections\<close>.\<close>

definition RemoveIdleConnections ::
  "heap \<Rightarrow> time \<Rightarrow> string list \<Rightarrow> duration \<Rightarrow> int \<Rightarrow> ConnectionPool \<Rightarrow> int \<times> ConnectionPool" where
  "RemoveIdleConnections h now ks idleTimeout minSizePerNode p =
     fold (reap_node h now idleTimeout minSizePerNode) ks (0, p)"

definition Clear :: "ConnectionPool \<Rightarrow> ConnectionPool" where
  "Clear p = p\<lparr>nodeConnections := fmempty, nodeRoundRobinIndices := fmempty, nodeOrder := [],
              nodeOrderIndex := 0, nodeHTTPClients := fmempty\<rparr>"

section \<open>Configuration, statistics and the client (models.go)\<close>

record PoolConfig =
  MinPoolSize :: int
  MaxPoolSize :: int
  MaxWritePoolSize :: int
  ScaleUpThreshold :: int
  IdleTimeout :: duration
  ScaleDownInterval :: duration
  ConnectionTTL :: duration
  ScaleUpBatchSize :: int
  UsageWindowSize :: int
  NodeUseMultiClient :: bool

record ClientConfig =
  ServerURL :: string
  APIKey :: string
  ClientID :: string
  Username :: string
  Password :: string
  HTTPTimeout :: duration
  cfgPoolConfig :: "PoolConfig option"

text \<open>
  The cluster status of the server (\<open>orm.NodeStatusStruct\<close>, declared outside this repository):
  the fields the client reads.
\<close>

record StatusStruct =
  st_URL :: string
  st_NodeID :: string
  st_Mode :: string
  st_IsLeader :: bool
  st_MaxPool :: int

record NodeStatusStruct = StatusStruct +
  Peers :: "StatusStruct list"

record ConnectionStats =
  cs_NodeID :: string
  CurrentConnections :: int
  ActiveRequests :: int
  LastScaleUp :: time
  LastScaleDown :: time
  UsageHistory :: "time list"
  HistoryWindow :: int
  LastCleanup :: time
  ScaleUpEvents :: int
  ScaleDownEvents :: int

text \<open>
  A \<open>*time.Timer\<close>: whether it is still running, and whether a tick waits in its channel.
  A \<open>chan struct{}\<close> used only through \<open>make\<close> and \<open>close\<close>: nil, open or closed.
\<close>

record Timer =
  t_active :: bool
  t_pending :: bool

datatype chan = NilChan | OpenChan | ClosedChan

record Client =
  Config :: ClientConfig
  Connected :: bool
  leaderConn :: "ref option"
  readPool :: ConnectionPool
  writePool :: ConnectionPool
  poolConfig :: PoolConfig
  statsPerNodeRead :: "(string, ConnectionStats) fmap"
  statsPerNodeWrite :: "(string, ConnectionStats) fmap"
  status :: "NodeStatusStruct option"
  cleanupTimer :: "Timer option"
  cleanupDone :: chan

section \<open>The world outside the client\<close>

text \<open>
  The value of an \<open>interface{}\<close> that came from or goes to JSON, the envelope every response
  carries (\<open>suresql.StandardResponse\<close>), a request as it goes on the wire and a response as
  \<open>http.Client.Do\<close> hands it back. \<open>Body\<close> is what decoding the body as an envelope gives;
  \<open>None\<close> when it does not decode.
\<close>

datatype json =
    JNull
  | JBool bool
  | JNum int
  | JStr string
  | JArr "json list"
  | JObj "(string, json) fmap"

record StandardResponse =
  sr_Status :: int
  sr_Message :: string
  sr_Data :: json

record http_request =
  rq_method :: string
  rq_url :: string
  rq_body :: "json option"
  rq_api_key :: string
  rq_client_id :: string
  rq_bearer :: "string option"

record http_response =
  StatusCode :: int
  Body :: "StandardResponse option"

text \<open>
  What the client cannot decide: whether a request can be built at all (\<open>json.Marshal\<close>,
  \<open>http.NewRequest\<close>), and the pair \<open>(resp, err)\<close> that \<open>http.Client.Do\<close> returns for the
  \<open>n\<close>-th request put on the wire.
\<close>

record env =
  build_error :: "http_request \<Rightarrow> string option"
  server :: "nat \<Rightarrow> http_request \<Rightarrow> http_response option \<times> string option"

text \<open>
  The mutable world: the store of connections, the next free address, the next fresh
  \<open>*http.Client\<close>, the requests sent so far and the reading of \<open>time.Now()\<close>.
\<close>

record world =
  heap :: heap
  nextRef :: ref
  nextClient :: nat
  sent :: "http_request list"
  clock :: time

definition zeroTime :: time where
  "zeroTime = - 62135596800000000000"

definition emptyToken :: TokenTable where
  "emptyToken = \<lparr>tt_Token = [], tt_Refresh = []\<rparr>"

section \<open>Client construction (models.go)\<close>

definition ValueOrDefault :: "'a \<Rightarrow> 'a \<Rightarrow> ('a \<Rightarrow> 'a \<Rightarrow> bool) \<Rightarrow> 'a" where
  "ValueOrDefault v preset compF = (if compF v preset then v else preset)"

definition IntBiggerThanZero :: "int \<Rightarrow> int \<Rightarrow> bool" where
  "IntBiggerThanZero a b = (a > 0)"

definition DurationBiggerThanZero :: "duration \<Rightarrow> duration \<Rightarrow> bool" where
  "DurationBiggerThanZero a b = (a > 0)"

definition DEFAULT_TIMEOUT :: duration where
  "DEFAULT_TIMEOUT = 60 * 1000000000"

text \<open>\<open>defaults\<close> is what \<open>NewPoolConfig()\<close> reads from the environment.\<close>

definition mergePoolConfig :: "PoolConfig \<Rightarrow> PoolConfig option \<Rightarrow> PoolConfig" where
  "mergePoolConfig defaults given =
     (case given of
        None \<Rightarrow> defaults
      | Some g \<Rightarrow>
          defaults
            \<lparr>MinPoolSize := ValueOrDefault (MinPoolSize g) (MinPoolSize defaults) IntBiggerThanZero,
             MaxPoolSize := ValueOrDefault (MaxPoolSize g) (MaxPoolSize defaults) IntBiggerThanZero,
             MaxWritePoolSize :=
               ValueOrDefault (MaxWritePoolSize g) (MaxWritePoolSize defaults) IntBiggerThanZero,
             ScaleUpThreshold :=
               ValueOrDefault (ScaleUpThreshold g) (ScaleUpThreshold defaults) IntBiggerThanZero,
             IdleTimeout :=
               ValueOrDefault (IdleTimeout g) (IdleTimeout defaults) DurationBiggerThanZero,
             ScaleDownInterval :=
               ValueOrDefault (ScaleDownInterval g) (ScaleDownInterval defaults) DurationBiggerThanZero,
             ConnectionTTL :=
               ValueOrDefault (ConnectionTTL g) (ConnectionTTL defaults) DurationBiggerThanZero,
             ScaleUpBatchSize :=
               ValueOrDefault (ScaleUpBatchSize g) (ScaleUpBatchSize defaults) IntBiggerThanZero,
             UsageWindowSize :=
               ValueOrDefault (UsageWindowSize g) (UsageWindowSize defaults) IntBiggerThanZero\<rparr>)"

section \<open>Connections (connection.go)\<close>

definition NewHTTPClient :: "world \<Rightarrow> nat \<times> world" where
  "NewHTTPClient w = (nextClient w, w\<lparr>nextClient := nextClient w + 1\<rparr>)"

definition NewConnectionWithClient ::
  "ClientConfig \<Rightarrow> string \<Rightarrow> string \<Rightarrow> string \<Rightarrow> bool \<Rightarrow> TokenTable \<Rightarrow> nat \<Rightarrow> world \<Rightarrow> ref \<times> world" where
  "NewConnectionWithClient config url nodeID mode leader token httpClient w =
     (let nodeID1 = (if nodeID = [] then ''0'' else nodeID);
          mode1 = (if mode = [] then ''rw'' else mode);
          url1 = (if url = [] then ServerURL config else url);
          now = clock w;
          r = nextRef w
      in (r, w\<lparr>heap := (heap w)
                  (r := \<lparr>URL = url1, Token = token, NodeID = nodeID1, IsLeader = leader, Mode = mode1,
                         HTTPClient = httpClient, LastUsed = now, LastRefresh = now, Created = now\<rparr>),
                nextRef := r + 1\<rparr>))"

definition NewConnection ::
  "ClientConfig \<Rightarrow> string \<Rightarrow> string \<Rightarrow> string \<Rightarrow> bool \<Rightarrow> TokenTable \<Rightarrow> world \<Rightarrow> ref \<times> world" where
  "NewConnection config url nodeID mode leader token w =
     (let (client, w1) = NewHTTPClient w
      in NewConnectionWithClient config url nodeID mode leader token client w1)"

definition NewClient :: "PoolConfig \<Rightarrow> ClientConfig \<Rightarrow> world \<Rightarrow> Client \<times> world" where
  "NewClient defaults config0 w =
     (let config = (if HTTPTimeout config0 = 0 then config0\<lparr>HTTPTimeout := DEFAULT_TIMEOUT\<rparr>
                    else config0);
          pc = mergePoolConfig defaults (cfgPoolConfig config);
          (leader, w1) = NewConnection config [] [] [] True emptyToken w
      in (\<lparr>Config = config, Connected = False, leaderConn = Some leader,
           readPool = NewConnectionPool False (MaxPoolSize pc) (MaxWritePoolSize pc),
           writePool = NewConnectionPool True (MaxPoolSize pc) (MaxWritePoolSize pc),
           poolConfig = pc, statsPerNodeRead = fmempty, statsPerNodeWrite = fmempty,
           status = None, cleanupTimer = None, cleanupDone = NilChan\<rparr>, w1))"

definition getOrCreateNodeHTTPClient :: "string \<Rightarrow> Client \<Rightarrow> world \<Rightarrow> nat \<times> Client \<times> world" where
  "getOrCreateNodeHTTPClient nodeID c w =
     (case fmlookup (nodeHTTPClients (readPool c)) nodeID of
        Some client \<Rightarrow> (client, c, w)
      | None \<Rightarrow>
          (let (client, w1) = NewHTTPClient w
           in (client,
               c\<lparr>readPool := (readPool c)
                    \<lparr>nodeHTTPClients := fmupd nodeID client (nodeHTTPClients (readPool c))\<rparr>,
                 writePool := (writePool c)
                    \<lparr>nodeHTTPClients := fmupd nodeID client (nodeHTTPClients (writePool c))\<rparr>\<rparr>,
               w1)))"

definition userCredentialsFromConfig :: "ClientConfig \<Rightarrow> json" where
  "userCredentialsFromConfig config =
     JObj (fmupd ''password'' (JStr (Password config))
            (fmupd ''username'' (JStr (Username config)) fmempty))"

definition createHttpRequest ::
  "env \<Rightarrow> Connection \<Rightarrow> string \<Rightarrow> string \<Rightarrow> json option \<Rightarrow> ClientConfig \<Rightarrow> error + http_request" where
  "createHttpRequest e c method endpoint data config =
     (let req = \<lparr>rq_method = method, rq_url = URL c @ endpoint, rq_body = data,
                 rq_api_key = APIKey config, rq_client_id = ClientID config, rq_bearer = None\<rparr>
      in case build_error e req of
           Some msg \<Rightarrow> Inl (RequestBuildFailed msg)
         | None \<Rightarrow> Inr req)"

text \<open>sendHttpRequest returns Go's pair \<open>(resp, err)\<close>.\<close>

definition sendHttpRequest ::
  "env \<Rightarrow> Connection \<Rightarrow> string \<Rightarrow> string \<Rightarrow> json option \<Rightarrow> ClientConfig \<Rightarrow> bool \<Rightarrow> world
   \<Rightarrow> (http_response option \<times> error option) \<times> world" where
  "sendHttpRequest e c method endpoint data config withToken w =
     (case createHttpRequest e c method endpoint data config of
        Inl err \<Rightarrow> ((None, Some err), w)
      | Inr req \<Rightarrow>
          (let req1 = (if withToken \<and> tt_Token (Token c) \<noteq> []
                       then req\<lparr>rq_bearer := Some (tt_Token (Token c))\<rparr> else req);
               (resp, err) = server e (length (sent w)) req1
           in ((resp, map_option Transport err), w\<lparr>sent := sent w @ [req1]\<rparr>)))"

text \<open>A nil \<open>resp\<close> makes \<open>resp.Body\<close> a nil pointer dereference.\<close>

definition getAndCheckResponseData :: "http_response option \<Rightarrow> error + json" where
  "getAndCheckResponseData resp =
     (case resp of
        None \<Rightarrow> Inl (Panic ''nil pointer dereference'')
      | Some r \<Rightarrow>
          (case Body r of
             None \<Rightarrow> Inl DecodeFailed
           | Some result \<Rightarrow>
               if sr_Status result \<noteq> 200 then Inl (RequestError (sr_Message result))
               else Inr (sr_Data result)))"

definition getAndCheckToken :: "Connection \<Rightarrow> bool \<Rightarrow> error option" where
  "getAndCheckToken c withToken =
     (if withToken then (if tt_Token (Token c) = [] then Some (AuthRequired (NodeID c)) else None)
      else None)"

text \<open>
  Modelled from the spec: \<open>object.MapToStructSlow[suresql.TokenTable]\<close> belongs to a library
  outside this repository. The spec gives the token mapping as \<open>{token, refresh, ...}\<close>: a field
  of the struct is the string stored under its key, and stays empty when the key is missing or
  holds no string.
\<close>

definition string_field :: "(string, json) fmap \<Rightarrow> string \<Rightarrow> string" where
  "string_field m k = (case fmlookup m k of Some (JStr s) \<Rightarrow> s | _ \<Rightarrow> [])"

definition MapToStructSlow :: "(string, json) fmap \<Rightarrow> TokenTable" where
  "MapToStructSlow m = \<lparr>tt_Token = string_field m ''token'', tt_Refresh = string_field m ''refresh''\<rparr>"

definition convertDataToToken :: "json \<Rightarrow> error + TokenTable" where
  "convertDataToToken data =
     (case data of
        JObj tokenData \<Rightarrow>
          (let tokenObj = MapToStructSlow tokenData
           in if tt_Token tokenObj = [] \<or> tt_Refresh tokenObj = [] then Inl TokenNotFound
              else Inr tokenObj)
      | _ \<Rightarrow> Inl UnexpectedFormat)"

text \<open>
  The tail of newOrRefreshToken, once a response is in hand: decode it, extract the token pair,
  and only then store it on the connection.
\<close>

definition store_new_token :: "ref \<Rightarrow> http_response option \<Rightarrow> world \<Rightarrow> error option \<times> world" where
  "store_new_token r resp w =
     (case getAndCheckResponseData resp of
        Inl err \<Rightarrow> (Some err, w)
      | Inr data \<Rightarrow>
          (case convertDataToToken data of
             Inl err \<Rightarrow> (Some err, w)
           | Inr tokenObj \<Rightarrow>
               (None, w\<lparr>heap := (heap w)(r := (heap w r)\<lparr>Token := tokenObj, LastRefresh := clock w\<rparr>)\<rparr>)))"

text \<open>
  In the refresh branch the code closes \<open>resp.Body\<close> after a failed exchange; with a nil \<open>resp\<close>
  that is a panic.
\<close>

definition newOrRefreshToken :: "env \<Rightarrow> ClientConfig \<Rightarrow> ref \<Rightarrow> bool \<Rightarrow> world \<Rightarrow> error option \<times> world" where
  "newOrRefreshToken e config r refresh w =
     (if refresh then
        (if tt_Refresh (Token (heap w r)) = [] then (Some NoRefreshToken, w)
         else
           (let refreshReq = JObj (fmupd ''refresh_token'' (JStr (tt_Refresh (Token (heap w r)))) fmempty);
                ((resp, err), w1) =
                   sendHttpRequest e (heap w r) ''POST'' ''/db/refresh'' (Some refreshReq) config False w
            in case err of
                 Some x \<Rightarrow>
                   (case resp of
                      None \<Rightarrow> (Some (Panic ''nil pointer dereference''), w1)
                    | Some _ \<Rightarrow> (Some (RefreshRequestFailed x), w1))
               | None \<Rightarrow> store_new_token r resp w1))
      else
        (let ((resp, err), w1) =
                sendHttpRequest e (heap w r) ''POST'' ''/db/connect''
                  (Some (userCredentialsFromConfig config)) config False w
         in case err of
              Some x \<Rightarrow> (Some (ConnectRequestFailed x), w1)
            | None \<Rightarrow> store_new_token r resp w1))"

definition tryRefreshAndRenew :: "env \<Rightarrow> ClientConfig \<Rightarrow> ref \<Rightarrow> world \<Rightarrow> error option \<times> world" where
  "tryRefreshAndRenew e config r w =
     (case newOrRefreshToken e config r True w of
        (None, w1) \<Rightarrow> (None, w1)
      | (Some (Panic msg), w1) \<Rightarrow> (Some (Panic msg), w1)
      | (Some _, w1) \<Rightarrow> newOrRefreshToken e config r False w1)"

definition createAndConnectNewConnection ::
  "env \<Rightarrow> string \<Rightarrow> string \<Rightarrow> string \<Rightarrow> bool \<Rightarrow> Client \<Rightarrow> world \<Rightarrow> (error + ref) \<times> Client \<times> world" where
  "createAndConnectNewConnection e url nodeID mode leader c w =
     (let (conn, c1, w1) =
            (if NodeUseMultiClient (poolConfig c)
             then (let (r, w') = NewConnection (Config c) url nodeID mode leader emptyToken w
                   in (r, c, w'))
             else (let (httpClient, c', w') = getOrCreateNodeHTTPClient nodeID c w;
                       (r, w'') = NewConnectionWithClient (Config c) url nodeID mode leader emptyToken
                                    httpClient w'
                   in (r, c', w'')))
      in case newOrRefreshToken e (Config c1) conn False w1 of
           (Some err, w2) \<Rightarrow> (Inl err, c1, w2)
         | (None, w2) \<Rightarrow> (Inr conn, c1, w2))"

section \<open>Scaling (scale.go)\<close>

definition startCleanupTimer :: "Client \<Rightarrow> Client" where
  "startCleanupTimer c =
     c\<lparr>cleanupDone := OpenChan, cleanupTimer := Some \<lparr>t_active = True, t_pending = False\<rparr>\<rparr>"

definition stats_map :: "bool \<Rightarrow> Client \<Rightarrow> (string, ConnectionStats) fmap" where
  "stats_map isWrite c = (if isWrite then statsPerNodeWrite c else statsPerNodeRead c)"

text \<open>
  The maps hold \<open>*ConnectionStats\<close>; a write through the pointer that getOrCreateNodeStats
  returned is a write to the entry of the map it came from.
\<close>

definition put_stats :: "string \<Rightarrow> bool \<Rightarrow> ConnectionStats \<Rightarrow> Client \<Rightarrow> Client" where
  "put_stats nodeID isWrite stats c =
     (if isWrite then c\<lparr>statsPerNodeWrite := fmupd nodeID stats (statsPerNodeWrite c)\<rparr>
      else c\<lparr>statsPerNodeRead := fmupd nodeID stats (statsPerNodeRead c)\<rparr>)"

definition getOrCreateNodeStats :: "time \<Rightarrow> string \<Rightarrow> bool \<Rightarrow> Client \<Rightarrow> ConnectionStats \<times> Client" where
  "getOrCreateNodeStats now nodeID isWrite c =
     (case fmlookup (stats_map isWrite c) nodeID of
        Some stats \<Rightarrow> (stats, c)
      | None \<Rightarrow>
          (let stats = \<lparr>cs_NodeID = nodeID, CurrentConnections = 0, ActiveRequests = 0,
                        LastScaleUp = zeroTime, LastScaleDown = zeroTime, UsageHistory = [],
                        HistoryWindow = UsageWindowSize (poolConfig c), LastCleanup = now,
                        ScaleUpEvents = 0, ScaleDownEvents = 0\<rparr>
           in (stats, put_stats nodeID isWrite stats c)))"

text \<open>\<open>c.status\<close> is a pointer: reading through it when it is nil is a panic.\<close>

definition findMaxPoolsByNodeID :: "Client \<Rightarrow> string \<Rightarrow> error + int" where
  "findMaxPoolsByNodeID c nodeID =
     (case status c of
        None \<Rightarrow> Inl (Panic ''nil pointer dereference'')
      | Some st \<Rightarrow>
          if nodeID = st_NodeID st then Inr (st_MaxPool st)
          else (case find (\<lambda>p. nodeID = st_NodeID p) (Peers st) of
                  Some p \<Rightarrow> Inr (st_MaxPool p)
                | None \<Rightarrow> Inr (MaxPoolSize (poolConfig c))))"

text \<open>
  createPoolConnections: \<open>n\<close> rounds are left, \<open>connections\<close> collects the sessions that
  authenticated; a failed attempt is skipped.
\<close>

fun createPoolConnections_loop ::
  "env \<Rightarrow> string \<Rightarrow> string \<Rightarrow> string \<Rightarrow> bool \<Rightarrow> nat \<Rightarrow> ref list \<Rightarrow> Client \<Rightarrow> world
   \<Rightarrow> (error + ref list) \<times> Client \<times> world" where
  "createPoolConnections_loop e nodeURL nodeID nodeMode isLeader 0 connections c w =
     (Inr connections, c, w)"
| "createPoolConnections_loop e nodeURL nodeID nodeMode isLeader (Suc n) connections c w =
     (case createAndConnectNewConnection e nodeURL nodeID nodeMode isLeader c w of
        (Inl (Panic msg), c1, w1) \<Rightarrow> (Inl (Panic msg), c1, w1)
      | (Inl _, c1, w1) \<Rightarrow>
          createPoolConnections_loop e nodeURL nodeID nodeMode isLeader n connections c1 w1
      | (Inr conn, c1, w1) \<Rightarrow>
          createPoolConnections_loop e nodeURL nodeID nodeMode isLeader n (connections @ [conn]) c1 w1)"

definition createPoolConnections ::
  "env \<Rightarrow> string \<Rightarrow> string \<Rightarrow> string \<Rightarrow> bool \<Rightarrow> int \<Rightarrow> Client \<Rightarrow> world
   \<Rightarrow> (error + ref list) \<times> Client \<times> world" where
  "createPoolConnections e nodeURL nodeID nodeMode isLeader cnt c w =
     (if cnt \<le> 0 then (Inr [], c, w)
      else createPoolConnections_loop e nodeURL nodeID nodeMode isLeader (nat cnt) [] c w)"

text \<open>
  scaleUpNode returns nothing; the first component is the panic that ended it, if one did.
  \<open>ks\<close> is the order in which AddBatch ranges over the grouped batch.
\<close>

definition scaleUpNode ::
  "env \<Rightarrow> string list \<Rightarrow> ref \<Rightarrow> bool \<Rightarrow> Client \<Rightarrow> world \<Rightarrow> error option \<times> Client \<times> world" where
  "scaleUpNode e ks conn isWrite c w =
     (let cn = heap w conn in
      case findMaxPoolsByNodeID c (NodeID cn) of
        Inl err \<Rightarrow> (Some err, c, w)
      | Inr found \<Rightarrow>
          (let maxPool = (if isWrite then maxWritePool (readPool c) else found);
               currentSize = SizeForNode (if isWrite then writePool c else readPool c) (NodeID cn);
               addCount = min (ScaleUpBatchSize (poolConfig c)) (maxPool - currentSize)
           in if addCount \<le> 0 then (None, c, w)
              else
                (case createPoolConnections e (URL cn) (NodeID cn) (Mode cn) (IsLeader cn) addCount c w of
                   (Inl err, c1, w1) \<Rightarrow> (Some err, c1, w1)
                 | (Inr connections, c1, w1) \<Rightarrow>
                     if length connections > 0 then
                       (let c2 = (if isWrite
                                  then c1\<lparr>writePool := AddBatch (heap w1) ks connections (writePool c1)\<rparr>
                                  else c1\<lparr>readPool := AddBatch (heap w1) ks connections (readPool c1)\<rparr>);
                            (stats, c3) = getOrCreateNodeStats (clock w1) (NodeID cn) isWrite c2
                        in (None,
                            put_stats (NodeID cn) isWrite
                              (stats\<lparr>CurrentConnections := CurrentConnections stats + int (length connections),
                                     ScaleUpEvents := ScaleUpEvents stats + 1\<rparr>) c3,
                            w1))
                     else (None, c1, w1))))"

section \<open>Periodic cleanup and shutdown (pool.go, suresql.go)\<close>

text \<open>The body of the two loops over \<open>c.statsPerNodeRead\<close> in cleanupIdleConnections.\<close>

definition cleanup_update_stats :: "time \<Rightarrow> bool \<Rightarrow> string \<Rightarrow> Client \<Rightarrow> Client" where
  "cleanup_update_stats now fromWritePool nodeID c =
     (let (stats, c1) = getOrCreateNodeStats now nodeID False c
      in put_stats nodeID False
           (stats\<lparr>CurrentConnections :=
                     SizeForNode (if fromWritePool then writePool c1 else readPool c1) nodeID,
                  LastScaleDown := now, LastCleanup := now,
                  ScaleDownEvents := ScaleDownEvents stats + 1\<rparr>) c1)"

text \<open>
  \<open>ksR\<close> and \<open>ksW\<close> are the orders in which the two pools' buckets are ranged over,
  \<open>ksS1\<close> and \<open>ksS2\<close> those of the two loops over the read statistics.
\<close>

definition cleanupIdleConnections ::
  "string list \<Rightarrow> string list \<Rightarrow> string list \<Rightarrow> string list \<Rightarrow> Client \<Rightarrow> world \<Rightarrow> Client" where
  "cleanupIdleConnections ksR ksW ksS1 ksS2 c w =
     (let now = clock w in
      if status c = None then c
      else
        (let (readRemoved, rp) =
               RemoveIdleConnections (heap w) (clock w) ksR (IdleTimeout (poolConfig c))
                 (MinPoolSize (poolConfig c)) (readPool c);
             (writeRemoved, wp) =
               RemoveIdleConnections (heap w) (clock w) ksW (IdleTimeout (poolConfig c))
                 (MinPoolSize (poolConfig c)) (writePool c);
             c1 = c\<lparr>readPool := rp, writePool := wp\<rparr>;
             c2 = (if readRemoved > 0 then fold (cleanup_update_stats now True) ksS1 c1 else c1)
         in if writeRemoved > 0 then fold (cleanup_update_stats now False) ksS2 c2 else c2))"

text \<open>
  \<open>Timer.Stop\<close> reports whether this call stopped the timer; closing a nil or an already closed
  channel is a panic.
\<close>

definition Timer_Stop :: "Timer \<Rightarrow> bool \<times> Timer" where
  "Timer_Stop t = (t_active t, t\<lparr>t_active := False\<rparr>)"

definition close_chan :: "chan \<Rightarrow> error + chan" where
  "close_chan ch =
     (case ch of
        OpenChan \<Rightarrow> Inr ClosedChan
      | ClosedChan \<Rightarrow> Inl (Panic ''close of closed channel'')
      | NilChan \<Rightarrow> Inl (Panic ''close of nil channel''))"

definition CloseConnections :: "Client \<Rightarrow> error + Client" where
  "CloseConnections c =
     (let stopped =
            (case cleanupTimer c of
               None \<Rightarrow> Inr c
             | Some t \<Rightarrow>
                 (let (wasActive, t1) = Timer_Stop t;
                      t2 = (if \<not> wasActive then t1\<lparr>t_pending := False\<rparr> else t1)
                  in case close_chan (cleanupDone c) of
                       Inl err \<Rightarrow> Inl err
                     | Inr ch \<Rightarrow> Inr (c\<lparr>cleanupTimer := Some t2, cleanupDone := ch\<rparr>)))
      in case stopped of
           Inl err \<Rightarrow> Inl err
         | Inr c1 \<Rightarrow>
             Inr (c1\<lparr>leaderConn := None, readPool := Clear (readPool c1),
                     writePool := Clear (writePool c1), Connected := False\<rparr>))"

definition Close :: "Client \<Rightarrow> error + Client" where
  "Close c = (case CloseConnections c of Inl err \<Rightarrow> Inl err | Inr c1 \<Rightarrow> Inr (c1\<lparr>Connected := False\<rparr>))"

section \<open>The dispatcher (request.go)\<close>

text \<open>
  The block of sendRequestToPool that runs when the first exchange returned an error: either the
  call is over (\<open>Finished\<close>), or \<open>resp\<close> and \<open>err\<close> are carried on to the fallback check.
  After a successful refresh the second exchange's failure closes \<open>resp.Body\<close>, a panic when
  \<open>resp\<close> is nil.
\<close>

datatype retry = Finished "error + json" | Carry "http_response option" "error option"

definition refresh_and_retry ::
  "env \<Rightarrow> ref \<Rightarrow> string \<Rightarrow> string \<Rightarrow> json option \<Rightarrow> ClientConfig \<Rightarrow> bool \<Rightarrow> bool
   \<Rightarrow> http_response option \<Rightarrow> error \<Rightarrow> world \<Rightarrow> retry \<times> world" where
  "refresh_and_retry e r method endpoint body config withToken autorefresh resp err w =
     (if autorefresh \<and> (case resp of Some rp \<Rightarrow> StatusCode rp = 401 | None \<Rightarrow> False) \<and> withToken
      then
        (case tryRefreshAndRenew e config r w of
           (None, w1) \<Rightarrow>
             (case sendHttpRequest e (heap w1 r) method endpoint body config withToken w1 of
                ((resp2, Some err2), w2) \<Rightarrow>
                  (case resp2 of
                     None \<Rightarrow> (Finished (Inl (Panic ''nil pointer dereference'')), w2)
                   | Some _ \<Rightarrow> (Finished (Inl (ApiCallFailedAfterRefresh err2)), w2))
              | ((resp2, None), w2) \<Rightarrow> (Carry resp2 None, w2))
         | (Some (Panic msg), w1) \<Rightarrow> (Finished (Inl (Panic msg)), w1)
         | (Some err1, w1) \<Rightarrow> (Carry resp (Some err1), w1))
      else (Carry resp (Some err), w))"

function sendRequestToPool ::
  "env \<Rightarrow> ref option \<Rightarrow> string \<Rightarrow> string \<Rightarrow> json option \<Rightarrow> bool \<Rightarrow> bool \<Rightarrow> bool \<Rightarrow> Client \<Rightarrow> world
   \<Rightarrow> (error + json) \<times> Client \<times> world"
and sendRequestToLeader ::
  "env \<Rightarrow> string \<Rightarrow> string \<Rightarrow> json option \<Rightarrow> bool \<Rightarrow> bool \<Rightarrow> Client \<Rightarrow> world
   \<Rightarrow> (error + json) \<times> Client \<times> world"
where
  "sendRequestToPool e conn method endpoint body withToken autorefresh0 fallback c w =
     (case conn of
        None \<Rightarrow> (Inl NoDBConnection, c, w)
      | Some r \<Rightarrow>
          (let autorefresh = (if \<not> withToken \<and> autorefresh0 then False else autorefresh0) in
           case getAndCheckToken (heap w r) withToken of
             Some err \<Rightarrow> (Inl err, c, w)
           | None \<Rightarrow>
               (case sendHttpRequest e (heap w r) method endpoint body (Config c) withToken w of
                  ((resp, None), w1) \<Rightarrow> (getAndCheckResponseData resp, c, w1)
                | ((resp, Some err), w1) \<Rightarrow>
                    (case refresh_and_retry e r method endpoint body (Config c) withToken autorefresh
                            resp err w1 of
                       (Finished res, w2) \<Rightarrow> (res, c, w2)
                     | (Carry resp1 None, w2) \<Rightarrow> (getAndCheckResponseData resp1, c, w2)
                     | (Carry resp1 (Some err1), w2) \<Rightarrow>
                         if fallback \<and> conn \<noteq> leaderConn c then
                           (case sendRequestToLeader e method endpoint body withToken autorefresh c w2 of
                              (Inl (Panic msg), c3, w3) \<Rightarrow> (Inl (Panic msg), c3, w3)
                            | (Inl err2, c3, w3) \<Rightarrow> (Inl (FallbackToLeaderFailed err2), c3, w3)
                            | (Inr data, c3, w3) \<Rightarrow> (Inr data, c3, w3))
                         else (Inl (ApiCallFailed err1), c, w2)))))"
| "sendRequestToLeader e method endpoint body withToken autorefresh c w =
     (case leaderConn c of
        None \<Rightarrow>
          (let (r, w1) = NewConnection (Config c) [] [] [] True emptyToken w
           in sendRequestToPool e (Some r) method endpoint body withToken autorefresh False
                (c\<lparr>leaderConn := Some r\<rparr>) w1)
      | Some r \<Rightarrow>
          sendRequestToPool e (Some r) method endpoint body withToken autorefresh False c w)"
  by pat_completeness auto
termination
  by (relation "measure (\<lambda>x. case x of
                   Inl (e, conn, method, endpoint, body, withToken, autorefresh0, fallback, c, w) \<Rightarrow>
                     (if fallback then 2 else 0)
                 | Inr _ \<Rightarrow> 1)") auto

declare sendRequestToPool.simps [simp del]
declare sendRequestToLeader.simps [simp del]

text \<open>The pool invariant on the per-node cursors: below the bucket size of every listed node.\<close>

definition cursors_in_range :: "ConnectionPool \<Rightarrow> bool" where
  "cursors_in_range p =
     list_all (\<lambda>nodeID. conns_at p nodeID = [] \<or> rr_at p nodeID < length (conns_at p nodeID))
       (nodeOrder p)"

text \<open>
  The pool invariant on the node list: it lists every node that has a bucket, each once.
\<close>

definition node_order_inv :: "ConnectionPool \<Rightarrow> bool" where
  "node_order_inv p = (distinct (nodeOrder p) \<and> set (nodeOrder p) = fmdom' (nodeConnections p))"




text \<open>
  Two shorthands for the proofs about session creation: what creating sessions leaves alone in a
  client, and the node id NewConnectionWithClient gives a session.
\<close>

definition same_sessions :: "Client \<Rightarrow> Client \<Rightarrow> bool" where
  "same_sessions c c' =
     (nodeConnections (readPool c') = nodeConnections (readPool c) \<and>
      nodeConnections (writePool c') = nodeConnections (writePool c) \<and>
      maxWritePool (readPool c') = maxWritePool (readPool c) \<and>
      poolConfig c' = poolConfig c \<and> status c' = status c \<and> Config c' = Config c)"

definition norm_id :: "string \<Rightarrow> string" where
  "norm_id nodeID = (if nodeID = [] then ''0'' else nodeID)"

text \<open>
  The pool invariant GetConnection relies on: the node list names each bucket's node once, and
  every listed node has a non-empty bucket with its cursor inside it.
\<close>

definition pool_wf :: "ConnectionPool \<Rightarrow> bool" where
  "pool_wf p =
     (node_order_inv p \<and>
      list_all (\<lambda>nodeID. conns_at p nodeID \<noteq> [] \<and> rr_at p nodeID < length (conns_at p nodeID))
        (nodeOrder p))"

section \<open>Example values\<close>

text \<open>
  A store in which connections 2 and 3 belong to node \<open>b\<close> and every other one to node \<open>a\<close>,
  connection \<open>r\<close> last used at time \<open>100 * r\<close>; and a pool holding connections 0 to 3.
\<close>

definition ex_heap :: heap where
  "ex_heap r =
     \<lparr>URL = ''http://node'', Token = \<lparr>tt_Token = ''tok'', tt_Refresh = ''ref''\<rparr>,
      NodeID = (if r = 2 \<or> r = 3 then ''b'' else ''a''), IsLeader = False, Mode = ''r'',
      HTTPClient = 0, LastUsed = 100 * int r, LastRefresh = 0, Created = 0\<rparr>"

definition ex_pool :: ConnectionPool where
  "ex_pool =
     \<lparr>nodeConnections = fmupd ''b'' [2, 3] (fmupd ''a'' [0, 1] fmempty),
      nodeRoundRobinIndices = fmupd ''b'' 0 (fmupd ''a'' 0 fmempty),
      nodeOrder = [''a'', ''b''], nodeOrderIndex = 0, isWritePool = False, maxPool = 10,
      maxWritePool = 1, nodeHTTPClients = fmempty\<rparr>"

text \<open>A new read pool to which connections 0 and 1, both of node \<open>a\<close>, have been added.\<close>

definition ex_two :: ConnectionPool where
  "ex_two = Add ex_heap 1 (Add ex_heap 0 (NewConnectionPool False 10 1))"

text \<open>
  A client after a successful Connect: status known, node \<open>a\<close> holding three read sessions
  (connections 0, 1 and 4), a configuration with \<open>MinPoolSize = 1\<close> and
  \<open>ScaleUpBatchSize = 3\<close>, and the cleanup timer not yet started. In \<open>ex_world\<close> the clock
  reads 2000, so that with an idle timeout of 750 every connection below 12 is idle.
\<close>

definition ex_poolConfig :: PoolConfig where
  "ex_poolConfig =
     \<lparr>MinPoolSize = 1, MaxPoolSize = 10, MaxWritePoolSize = 1, ScaleUpThreshold = 10,
      IdleTimeout = 750, ScaleDownInterval = 60, ConnectionTTL = 3600, ScaleUpBatchSize = 3,
      UsageWindowSize = 100, NodeUseMultiClient = False\<rparr>"

definition ex_config :: ClientConfig where
  "ex_config =
     \<lparr>ServerURL = ''http://leader'', APIKey = ''key'', ClientID = ''id'', Username = ''admin'',
      Password = ''admin'', HTTPTimeout = 60, cfgPoolConfig = None\<rparr>"

definition ex_stats :: "string \<Rightarrow> ConnectionStats" where
  "ex_stats nodeID =
     \<lparr>cs_NodeID = nodeID, CurrentConnections = 3, ActiveRequests = 0, LastScaleUp = 0,
      LastScaleDown = 0, UsageHistory = [], HistoryWindow = 100, LastCleanup = 0,
      ScaleUpEvents = 1, ScaleDownEvents = 0\<rparr>"

definition ex_status :: NodeStatusStruct where
  "ex_status =
     \<lparr>st_URL = ''http://leader'', st_NodeID = ''a'', st_Mode = ''rw'', st_IsLeader = True,
      st_MaxPool = 10, Peers = []\<rparr>"

definition ex_client :: Client where
  "ex_client =
     \<lparr>Config = ex_config, Connected = True, leaderConn = Some 9,
      readPool = (NewConnectionPool False 10 1)
        \<lparr>nodeConnections := fmupd ''a'' [0, 1, 4] fmempty,
         nodeRoundRobinIndices := fmupd ''a'' 0 fmempty, nodeOrder := [''a'']\<rparr>,
      writePool = (NewConnectionPool True 10 1)
        \<lparr>nodeConnections := fmupd ''a'' [5] fmempty,
         nodeRoundRobinIndices := fmupd ''a'' 0 fmempty, nodeOrder := [''a'']\<rparr>,
      poolConfig = ex_poolConfig,
      statsPerNodeRead = fmupd ''a'' (ex_stats ''a'') fmempty,
      statsPerNodeWrite = fmupd ''a'' (ex_stats ''a'') fmempty,
      status = Some ex_status, cleanupTimer = None, cleanupDone = NilChan\<rparr>"

definition ex_world :: world where
  "ex_world = \<lparr>heap = ex_heap, nextRef = 12, nextClient = 3, sent = [], clock = 2000\<rparr>"

text \<open>The same client with \<open>MinPoolSize = 2\<close>.\<close>

definition ex_client2 :: Client where
  "ex_client2 = ex_client\<lparr>poolConfig := ex_poolConfig\<lparr>MinPoolSize := 2\<rparr>\<rparr>"

text \<open>
  A server that answers every request with a well-formed token pair, and the example client
  with an empty write pool.
\<close>

definition ex_token_response :: http_response where
  "ex_token_response =
     \<lparr>StatusCode = 200,
      Body = Some \<lparr>sr_Status = 200, sr_Message = ''ok'',
                   sr_Data = JObj (fmupd ''refresh'' (JStr ''r1'') (fmupd ''token'' (JStr ''t1'') fmempty))\<rparr>\<rparr>"

definition ex_env :: env where
  "ex_env = \<lparr>build_error = (\<lambda>req. None), server = (\<lambda>n req. (Some ex_token_response, None))\<rparr>"

definition ex_client_no_writers :: Client where
  "ex_client_no_writers = ex_client\<lparr>writePool := NewConnectionPool True 10 1\<rparr>"

text \<open>
  A server whose token mapping lacks the refresh token; a server that answers the first request
  with HTTP 401 and every later one with a token pair, without and with an error next to the
  401 response; and the request the example query puts on the wire.
\<close>

definition ex_env_no_refresh_token :: env where
  "ex_env_no_refresh_token =
     \<lparr>build_error = (\<lambda>req. None),
      server = (\<lambda>n req. (Some \<lparr>StatusCode = 200,
                                Body = Some \<lparr>sr_Status = 200, sr_Message = ''ok'',
                                             sr_Data = JObj (fmupd ''token'' (JStr ''t1'') fmempty)\<rparr>\<rparr>,
                          None))\<rparr>"

definition ex_expired_response :: http_response where
  "ex_expired_response =
     \<lparr>StatusCode = 401,
      Body = Some \<lparr>sr_Status = 401, sr_Message = ''token expired'', sr_Data = JNull\<rparr>\<rparr>"

definition ex_env_expired :: env where
  "ex_env_expired =
     \<lparr>build_error = (\<lambda>req. None),
      server = (\<lambda>n req. if n = 0 then (Some ex_expired_response, None)
                         else (Some ex_token_response, None))\<rparr>"

definition ex_env_expired_with_error :: env where
  "ex_env_expired_with_error =
     \<lparr>build_error = (\<lambda>req. None),
      server = (\<lambda>n req. if n = 0 then (Some ex_expired_response, Some ''unauthorized'')
                         else (Some ex_token_response, None))\<rparr>"

definition ex_query :: http_request where
  "ex_query =
     \<lparr>rq_method = ''POST'', rq_url = ''http://node/db/api/query'', rq_body = None,
      rq_api_key = ''key'', rq_client_id = ''id'', rq_bearer = Some ''tok''\<rparr>"

section \<open>Properties of the pool\<close>

lemma index_from_absent: "x \<notin> set xs \<Longrightarrow> index_from x xs i = None"
  by (induction xs arbitrary: i) auto

text \<open>
  C10. If the connection's node has no bucket, or the bucket does not hold that very connection,
  Remove returns false and the pool (buckets, cursors, node order, node cursor, transports) is
  the one it was given.
\<close>

theorem Remove_absent_unchanged:
  "fmlookup (nodeConnections p) (NodeID (h conn)) = None \<or> conn \<notin> set (conns_at p (NodeID (h conn)))
   \<Longrightarrow> Remove h conn p = (False, p)"
  by (auto simp: Remove_def Let_def conns_at_def index_from_absent split: option.splits)

theorem Remove_absent_unchanged_witness:
  "4 \<notin> set (conns_at ex_pool (NodeID (ex_heap 4))) \<and> Remove ex_heap 4 ex_pool = (False, ex_pool)"
proof -
  have absent: "4 \<notin> set (conns_at ex_pool (NodeID (ex_heap 4)))"
    by (simp add: conns_at_def ex_pool_def ex_heap_def)
  then show ?thesis
    using Remove_absent_unchanged [of ex_pool ex_heap 4] by simp
qed

lemma GetConnection_loop_skip:
  assumes "\<forall>k. i \<le> k \<and> k < j \<longrightarrow>
             conns_at p (nodeOrder p ! ((s + k) mod length (nodeOrder p))) = []"
      and "i \<le> j" and "j \<le> length (nodeOrder p)"
  shows "GetConnection_loop now h p s i = GetConnection_loop now h p s j"
  using assms
proof (induction "j - i" arbitrary: i)
  case 0
  then show ?case by simp
next
  case (Suc d)
  then have lt: "i < j" by simp
  with Suc.prems have empty: "conns_at p (nodeOrder p ! ((s + i) mod length (nodeOrder p))) = []"
    by simp
  have step: "GetConnection_loop now h p s i = GetConnection_loop now h p s (i + 1)"
    using lt Suc.prems(3) empty by (subst GetConnection_loop.simps) (simp add: Let_def)
  have "GetConnection_loop now h p s (i + 1) = GetConnection_loop now h p s j"
    using Suc.hyps(2) Suc.prems lt by (intro Suc.hyps(1)) auto
  with step show ?case by simp
qed

lemma GetConnection_loop_end:
  "GetConnection_loop now h p s (length (nodeOrder p)) = (Inl NoConnectionsDespiteNodes, h, p)"
  by (subst GetConnection_loop.simps) simp

lemma GetConnection_loop_hit:
  assumes "j < length (nodeOrder p)"
      and "conns_at p (nodeOrder p ! ((s + j) mod length (nodeOrder p))) \<noteq> []"
      and "rr_at p (nodeOrder p ! ((s + j) mod length (nodeOrder p)))
             < length (conns_at p (nodeOrder p ! ((s + j) mod length (nodeOrder p))))"
  shows "GetConnection_loop now h p s j =
           (let nodeIdx = (s + j) mod length (nodeOrder p);
                nodeID = nodeOrder p ! nodeIdx;
                conn = conns_at p nodeID ! rr_at p nodeID
            in (Inr conn, h(conn := (h conn)\<lparr>LastUsed := now\<rparr>),
                p\<lparr>nodeRoundRobinIndices :=
                     fmupd nodeID ((rr_at p nodeID + 1) mod length (conns_at p nodeID))
                       (nodeRoundRobinIndices p),
                  nodeOrderIndex := (nodeIdx + 1) mod length (nodeOrder p)\<rparr>))"
  using assms by (subst GetConnection_loop.simps) (simp add: Let_def)

lemma cursors_in_rangeD:
  "cursors_in_range p \<Longrightarrow> k < length (nodeOrder p) \<Longrightarrow> conns_at p (nodeOrder p ! k) \<noteq> []
   \<Longrightarrow> rr_at p (nodeOrder p ! k) < length (conns_at p (nodeOrder p ! k))"
  by (auto simp: cursors_in_range_def list_all_length)

text \<open>
  In a pool whose per-node cursors are in range, GetConnection scans the node list from the
  node cursor. If every bucket is empty it fails with a no-connections error and changes nothing.
  Otherwise, for the first non-empty bucket met (\<open>j\<close> steps after the cursor), it returns the
  connection at that node's cursor, advances that cursor modulo the bucket size, moves the node
  cursor to the position after the node just served (modulo the node count), and stamps the
  returned connection's last-used time.
\<close>

lemma GetConnection_scan:
  assumes "cursors_in_range p"
  shows "((\<forall>i < length (nodeOrder p).
            conns_at p (nodeOrder p ! ((nodeOrderIndex p + i) mod length (nodeOrder p))) = [])
          \<longrightarrow> GetConnection now h p =
                (Inl (if nodeOrder p = [] then NoConnections else NoConnectionsDespiteNodes), h, p))
       \<and> (\<forall>j < length (nodeOrder p).
            conns_at p (nodeOrder p ! ((nodeOrderIndex p + j) mod length (nodeOrder p))) \<noteq> [] \<and>
            (\<forall>i < j. conns_at p (nodeOrder p ! ((nodeOrderIndex p + i) mod length (nodeOrder p))) = [])
            \<longrightarrow> GetConnection now h p =
                  (let nodeIdx = (nodeOrderIndex p + j) mod length (nodeOrder p);
                       nodeID = nodeOrder p ! nodeIdx;
                       conn = conns_at p nodeID ! rr_at p nodeID
                   in (Inr conn, h(conn := (h conn)\<lparr>LastUsed := now\<rparr>),
                       p\<lparr>nodeRoundRobinIndices :=
                            fmupd nodeID ((rr_at p nodeID + 1) mod length (conns_at p nodeID))
                              (nodeRoundRobinIndices p),
                         nodeOrderIndex := (nodeIdx + 1) mod length (nodeOrder p)\<rparr>)))"
proof (intro conjI impI allI)
  assume empty: "\<forall>i < length (nodeOrder p).
     conns_at p (nodeOrder p ! ((nodeOrderIndex p + i) mod length (nodeOrder p))) = []"
  show "GetConnection now h p =
          (Inl (if nodeOrder p = [] then NoConnections else NoConnectionsDespiteNodes), h, p)"
  proof (cases "nodeOrder p = []")
    case True
    then show ?thesis by (simp add: GetConnection_def)
  next
    case False
    have "GetConnection_loop now h p (nodeOrderIndex p) 0 =
            GetConnection_loop now h p (nodeOrderIndex p) (length (nodeOrder p))"
      using empty by (intro GetConnection_loop_skip) auto
    with False show ?thesis by (simp add: GetConnection_def GetConnection_loop_end)
  qed
next
  fix j
  assume j: "j < length (nodeOrder p)"
    and hit: "conns_at p (nodeOrder p ! ((nodeOrderIndex p + j) mod length (nodeOrder p))) \<noteq> [] \<and>
      (\<forall>i < j. conns_at p (nodeOrder p ! ((nodeOrderIndex p + i) mod length (nodeOrder p))) = [])"
  from j have ne: "nodeOrder p \<noteq> []" by auto
  have idx: "(nodeOrderIndex p + j) mod length (nodeOrder p) < length (nodeOrder p)"
    using ne by simp
  have skip: "GetConnection_loop now h p (nodeOrderIndex p) 0 =
                GetConnection_loop now h p (nodeOrderIndex p) j"
    using hit j by (intro GetConnection_loop_skip) auto
  have cur: "rr_at p (nodeOrder p ! ((nodeOrderIndex p + j) mod length (nodeOrder p)))
               < length (conns_at p (nodeOrder p ! ((nodeOrderIndex p + j) mod length (nodeOrder p))))"
    using cursors_in_rangeD [OF assms idx] hit by simp
  show "GetConnection now h p =
          (let nodeIdx = (nodeOrderIndex p + j) mod length (nodeOrder p);
               nodeID = nodeOrder p ! nodeIdx;
               conn = conns_at p nodeID ! rr_at p nodeID
           in (Inr conn, h(conn := (h conn)\<lparr>LastUsed := now\<rparr>),
               p\<lparr>nodeRoundRobinIndices :=
                    fmupd nodeID ((rr_at p nodeID + 1) mod length (conns_at p nodeID))
                      (nodeRoundRobinIndices p),
                 nodeOrderIndex := (nodeIdx + 1) mod length (nodeOrder p)\<rparr>))"
    using ne skip GetConnection_loop_hit [OF j _ cur, of now h] hit
    by (simp add: GetConnection_def)
qed

lemma GetConnection_scan_example:
  "cursors_in_range ex_pool \<and>
   GetConnection 7 ex_heap ex_pool =
     (Inr 0, ex_heap(0 := (ex_heap 0)\<lparr>LastUsed := 7\<rparr>),
      ex_pool\<lparr>nodeRoundRobinIndices := fmupd ''a'' 1 (nodeRoundRobinIndices ex_pool),
              nodeOrderIndex := 1\<rparr>)"
proof -
  have inv: "cursors_in_range ex_pool"
    by (simp add: cursors_in_range_def ex_pool_def conns_at_def rr_at_def)
  have "0 < length (nodeOrder ex_pool) \<and>
        conns_at ex_pool (nodeOrder ex_pool ! ((nodeOrderIndex ex_pool + 0) mod length (nodeOrder ex_pool))) \<noteq> [] \<and>
        (\<forall>i < (0::nat). conns_at ex_pool (nodeOrder ex_pool ! ((nodeOrderIndex ex_pool + i) mod length (nodeOrder ex_pool))) = [])"
    by (simp add: ex_pool_def conns_at_def)
  then have "GetConnection 7 ex_heap ex_pool =
                  (let nodeIdx = (nodeOrderIndex ex_pool + 0) mod length (nodeOrder ex_pool);
                       nodeID = nodeOrder ex_pool ! nodeIdx;
                       conn = conns_at ex_pool nodeID ! rr_at ex_pool nodeID
                   in (Inr conn, ex_heap(conn := (ex_heap conn)\<lparr>LastUsed := 7\<rparr>),
                       ex_pool\<lparr>nodeRoundRobinIndices :=
                            fmupd nodeID ((rr_at ex_pool nodeID + 1) mod length (conns_at ex_pool nodeID))
                              (nodeRoundRobinIndices ex_pool),
                         nodeOrderIndex := (nodeIdx + 1) mod length (nodeOrder ex_pool)\<rparr>))"
    using GetConnection_scan [OF inv, of 7 ex_heap] by blast
  then show ?thesis using inv
    by (simp add: Let_def ex_pool_def conns_at_def rr_at_def)
qed

lemma lookup_group_conn:
  "fmlookup (group_conn h c m) k =
     (if NodeID (h c) = k then Some ((case fmlookup m k of None \<Rightarrow> [] | Some cs \<Rightarrow> cs) @ [c])
      else fmlookup m k)"
  by (simp add: group_conn_def Let_def)

lemma fold_group_conn_lookup:
  "fmlookup (fold (group_conn h) conns m) k =
     (if k \<in> (\<lambda>c. NodeID (h c)) ` set conns
      then Some ((case fmlookup m k of None \<Rightarrow> [] | Some cs \<Rightarrow> cs) @ filter (\<lambda>c. NodeID (h c) = k) conns)
      else fmlookup m k)"
proof (induction conns arbitrary: m)
  case Nil
  then show ?case by simp
next
  case (Cons c conns)
  show ?case
  proof (cases "NodeID (h c) = k")
    case True
    have "k \<notin> (\<lambda>c. NodeID (h c)) ` set conns \<Longrightarrow> filter (\<lambda>c. NodeID (h c) = k) conns = []"
      by (induction conns) auto
    with True show ?thesis by (auto simp: Cons.IH lookup_group_conn)
  next
    case False
    then show ?thesis by (simp add: Cons.IH lookup_group_conn)
  qed
qed

lemma connsByNode_lookup:
  "fmlookup (connsByNode h conns) k =
     (if k \<in> (\<lambda>c. NodeID (h c)) ` set conns then Some (filter (\<lambda>c. NodeID (h c) = k) conns) else None)"
  by (simp add: connsByNode_def fold_group_conn_lookup)

lemma connsByNode_dom: "fmdom' (connsByNode h conns) = (\<lambda>c. NodeID (h c)) ` set conns"
proof -
  have "\<And>k. k \<in> fmdom' (connsByNode h conns) \<longleftrightarrow> k \<in> (\<lambda>c. NodeID (h c)) ` set conns"
    by (simp add: fmlookup_dom'_iff connsByNode_lookup)
  then show ?thesis by blast
qed

lemma Size_fmupd:
  assumes "nodeConnections q = fmupd k v (nodeConnections p)"
  shows "Size q = Size p - int (length (conns_at p k)) + int (length v)"
proof -
  let ?D = "fmdom' (nodeConnections p)"
  let ?f = "\<lambda>nodeID. int (length (conns_at p nodeID))"
  have fin: "finite ?D" by (simp add: fmdom'_alt_def)
  have old: "sum ?f ?D = ?f k + sum ?f (?D - {k})"
  proof (cases "k \<in> ?D")
    case True
    then show ?thesis using fin by (simp add: sum.remove)
  next
    case False
    then have "conns_at p k = []" by (auto simp: conns_at_def fmlookup_dom'_iff split: option.splits)
    with False show ?thesis by simp
  qed
  have same: "sum (\<lambda>nodeID. int (length (conns_at q nodeID))) (?D - {k}) = sum ?f (?D - {k})"
    by (intro sum.cong) (auto simp: conns_at_def assms)
  have "Size q = int (length (conns_at q k)) + sum (\<lambda>nodeID. int (length (conns_at q nodeID))) (?D - {k})"
    using fin by (simp add: Size_def assms sum.insert_remove)
  also have "int (length (conns_at q k)) = int (length v)"
    by (simp add: conns_at_def assms)
  finally show ?thesis using old same by (simp add: Size_def)
qed

lemma Size_add_node_batch: "Size (add_node_batch k cs p) = Size p + int (length cs)"
proof -
  have "nodeConnections (add_node_batch k cs p) = fmupd k (conns_at p k @ cs) (nodeConnections p)"
    by (intro fmap_ext) (simp add: add_node_batch_def Let_def conns_at_def split: option.splits)
  from Size_fmupd [OF this] show ?thesis by simp
qed

lemma sum_list_indicator:
  "distinct ks \<Longrightarrow> (\<Sum>k\<leftarrow>ks. if a = k then 1 else 0) = (if a \<in> set ks then 1 else (0::nat))"
  by (induction ks) auto

lemma group_sizes:
  assumes "distinct ks" and "f ` set xs \<subseteq> set ks"
  shows "(\<Sum>k\<leftarrow>ks. length (filter (\<lambda>c. f c = k) xs)) = length xs"
  using assms(2)
proof (induction xs)
  case Nil
  then show ?case by simp
next
  case (Cons x xs)
  have "(\<Sum>k\<leftarrow>ks. length (filter (\<lambda>c. f c = k) (x # xs))) =
          (\<Sum>k\<leftarrow>ks. (if f x = k then 1 else 0) + length (filter (\<lambda>c. f c = k) xs))"
    by (intro arg_cong [where f = sum_list] map_cong) auto
  also have "\<dots> = (\<Sum>k\<leftarrow>ks. if f x = k then 1 else 0) + (\<Sum>k\<leftarrow>ks. length (filter (\<lambda>c. f c = k) xs))"
    by (simp add: sum_list_addf)
  also have "\<dots> = 1 + length xs"
    using Cons assms(1) by (simp add: sum_list_indicator)
  finally show ?case by simp
qed

lemma Size_fold_batch:
  "set ks \<subseteq> fmdom' byNode \<Longrightarrow>
   Size (fold (batch_step byNode) ks p) = Size p + (\<Sum>k\<leftarrow>ks. int (length (the (fmlookup byNode k))))"
proof (induction ks arbitrary: p)
  case Nil
  then show ?case by simp
next
  case (Cons k ks)
  then obtain cs where "fmlookup byNode k = Some cs" by (auto simp: fmlookup_dom'_iff)
  with Cons show ?case by (simp add: batch_step_def Size_add_node_batch)
qed

lemma add_node_batch_inv:
  assumes "node_order_inv p"
  shows "node_order_inv (add_node_batch k cs p)"
proof (cases "fmlookup (nodeConnections p) k")
  case None
  then have "k \<notin> fmdom' (nodeConnections p)" by (simp add: fmdom'_notI)
  with None assms show ?thesis
    by (simp add: node_order_inv_def add_node_batch_def Let_def)
next
  case (Some cs0)
  then have "k \<in> fmdom' (nodeConnections p)" by (simp add: fmdom'I)
  then have "insert k (fmdom' (nodeConnections p)) = fmdom' (nodeConnections p)" by blast
  with Some assms show ?thesis
    by (simp add: node_order_inv_def add_node_batch_def Let_def)
qed

lemma fold_batch_inv:
  "node_order_inv p \<Longrightarrow> node_order_inv (fold (batch_step byNode) ks p)"
  by (induction ks arbitrary: p) (simp_all add: batch_step_def add_node_batch_inv split: option.splits)

text \<open>
  C7. AddBatch makes the pool's size grow by exactly the length of the batch, whatever the order
  in which the grouped batch is ranged over; and in a pool whose node list names every bucket's
  node once, it still does so afterwards: no node id appears twice.
\<close>

theorem AddBatch_size_and_order:
  assumes "range_order ks (connsByNode h conns)" and "node_order_inv p"
  shows "Size (AddBatch h ks conns p) = Size p + int (length conns) \<and>
         distinct (nodeOrder (AddBatch h ks conns p)) \<and>
         node_order_inv (AddBatch h ks conns p)"
proof -
  have ks: "distinct ks" "set ks = (\<lambda>c. NodeID (h c)) ` set conns"
    using assms(1) by (simp_all add: range_order_def connsByNode_dom)
  have "(\<Sum>k\<leftarrow>ks. int (length (the (fmlookup (connsByNode h conns) k)))) =
          (\<Sum>k\<leftarrow>ks. int (length (filter (\<lambda>c. NodeID (h c) = k) conns)))"
    using ks(2) by (intro arg_cong [where f = sum_list] map_cong) (auto simp: connsByNode_lookup)
  also have "\<dots> = int (\<Sum>k\<leftarrow>ks. length (filter (\<lambda>c. NodeID (h c) = k) conns))"
    by (induction ks) auto
  also have "\<dots> = int (length conns)"
    using group_sizes [OF ks(1), of "\<lambda>c. NodeID (h c)" conns] ks(2) by simp
  finally have total: "(\<Sum>k\<leftarrow>ks. int (length (the (fmlookup (connsByNode h conns) k)))) = int (length conns)" .
  have "set ks \<subseteq> fmdom' (connsByNode h conns)"
    using assms(1) by (simp add: range_order_def)
  then have size: "Size (AddBatch h ks conns p) = Size p + int (length conns)"
    using total by (simp add: AddBatch_def Size_fold_batch)
  have inv: "node_order_inv (AddBatch h ks conns p)"
    using assms(2) by (simp add: AddBatch_def fold_batch_inv)
  from size inv show ?thesis by (simp add: node_order_inv_def)
qed

theorem AddBatch_size_and_order_witness:
  "range_order [''b'', ''c''] (connsByNode (ex_heap(5 := (ex_heap 5)\<lparr>NodeID := ''c''\<rparr>)) [2, 5, 3]) \<and>
   node_order_inv ex_pool \<and>
   Size (AddBatch (ex_heap(5 := (ex_heap 5)\<lparr>NodeID := ''c''\<rparr>)) [''b'', ''c''] [2, 5, 3] ex_pool) = Size ex_pool + 3 \<and>
   nodeOrder (AddBatch (ex_heap(5 := (ex_heap 5)\<lparr>NodeID := ''c''\<rparr>)) [''b'', ''c''] [2, 5, 3] ex_pool) = [''a'', ''b'', ''c'']"
proof -
  let ?h = "ex_heap(5 := (ex_heap 5)\<lparr>NodeID := ''c''\<rparr>)"
  have r: "range_order [''b'', ''c''] (connsByNode ?h [2, 5, 3])"
    by (auto simp: range_order_def connsByNode_dom ex_heap_def)
  have i: "node_order_inv ex_pool"
    by (auto simp: node_order_inv_def ex_pool_def)
  have o: "nodeOrder (AddBatch ?h [''b'', ''c''] [2, 5, 3] ex_pool) = [''a'', ''b'', ''c'']"
    by (simp add: AddBatch_def batch_step_def connsByNode_def group_conn_def add_node_batch_def ex_heap_def
        ex_pool_def Let_def)
  show ?thesis
    using AddBatch_size_and_order [OF r i] r i o by simp
qed

section \<open>Reaping idle connections\<close>

lemma index_from_cut:
  "index_from x xs n = Some j \<Longrightarrow> n \<le> j \<and> take (j - n) xs @ drop (Suc (j - n)) xs = remove1 x xs"
proof (induction xs arbitrary: n)
  case Nil
  then show ?case by simp
next
  case (Cons y ys)
  show ?case
  proof (cases "y = x")
    case True
    with Cons.prems show ?thesis by simp
  next
    case False
    with Cons.prems have rec: "index_from x ys (Suc n) = Some j" by simp
    from Cons.IH [OF rec] have le: "Suc n \<le> j"
      and cut: "take (j - Suc n) ys @ drop (Suc (j - Suc n)) ys = remove1 x ys" by simp_all
    from le have "j - n = Suc (j - Suc n)" by simp
    with False cut le show ?thesis by simp
  qed
qed

lemma index_from_Some_iff: "(\<exists>j. index_from x xs n = Some j) \<longleftrightarrow> x \<in> set xs"
  by (induction xs arbitrary: n) auto

lemma remove_from_nodeOrder_order:
  "nodeOrder (remove_from_nodeOrder k p) = remove1 k (nodeOrder p)"
proof (cases "index_from k (nodeOrder p) 0")
  case None
  then have "k \<notin> set (nodeOrder p)" using index_from_Some_iff [of k "nodeOrder p" 0] by auto
  with None show ?thesis by (simp add: remove_from_nodeOrder_def remove1_idem)
next
  case (Some i)
  from index_from_cut [OF Some] show ?thesis
    using Some by (simp add: remove_from_nodeOrder_def Let_def)
qed

lemma remove_from_nodeOrder_frame:
  "nodeConnections (remove_from_nodeOrder k p) = nodeConnections p"
  "nodeRoundRobinIndices (remove_from_nodeOrder k p) = nodeRoundRobinIndices p"
  "nodeHTTPClients (remove_from_nodeOrder k p) = nodeHTTPClients p"
  "isWritePool (remove_from_nodeOrder k p) = isWritePool p"
  "maxPool (remove_from_nodeOrder k p) = maxPool p"
  "maxWritePool (remove_from_nodeOrder k p) = maxWritePool p"
  by (simp_all add: remove_from_nodeOrder_def Let_def split: option.splits)


lemma replace_bucket_frame:
  assumes "k \<noteq> k'"
  shows "fmlookup (nodeConnections (replace_bucket k' new p)) k = fmlookup (nodeConnections p) k"
    and "fmlookup (nodeRoundRobinIndices (replace_bucket k' new p)) k = fmlookup (nodeRoundRobinIndices p) k"
    and "k \<in> set (nodeOrder (replace_bucket k' new p)) \<longleftrightarrow> k \<in> set (nodeOrder p)"
  using assms
  by (auto simp: replace_bucket_def Let_def remove_from_nodeOrder_frame remove_from_nodeOrder_order)


lemma replace_bucket_nonempty:
  "new \<noteq> [] \<Longrightarrow>
     fmlookup (nodeConnections (replace_bucket k new p)) k = Some new \<and>
     rr_at (replace_bucket k new p) k = (if length new \<le> rr_at p k then 0 else rr_at p k) \<and>
     nodeOrder (replace_bucket k new p) = nodeOrder p"
  by (simp add: replace_bucket_def Let_def rr_at_def)

lemma replace_bucket_empty:
  "fmlookup (nodeConnections (replace_bucket k [] p)) k = None \<and>
   fmlookup (nodeRoundRobinIndices (replace_bucket k [] p)) k = None \<and>
   nodeOrder (replace_bucket k [] p) = remove1 k (nodeOrder p)"
  by (simp add: replace_bucket_def Let_def remove_from_nodeOrder_frame remove_from_nodeOrder_order)

















section \<open>The cursor invariant, and how Remove breaks it\<close>

text \<open>
  NewConnectionPool, Clear, Add, AddBatch, GetConnection and RemoveIdleConnections all keep
  \<open>pool_wf\<close>; RemoveIdleConnections does so by resetting a cursor that the shortened bucket
  leaves out of range. In a pool with \<open>pool_wf\<close> and at least one node, GetConnection returns
  a session.
\<close>

lemma pool_wf_replace_bucket:
  assumes "pool_wf p" and "k \<in> set (nodeOrder p)"
  shows "pool_wf (replace_bucket k new p)"
proof -
  have inv: "distinct (nodeOrder p)" "set (nodeOrder p) = fmdom' (nodeConnections p)"
    using assms(1) by (simp_all add: pool_wf_def node_order_inv_def)
  have old: "\<And>x. x \<in> set (nodeOrder p) \<Longrightarrow> conns_at p x \<noteq> [] \<and> rr_at p x < length (conns_at p x)"
    using assms(1) by (simp add: pool_wf_def list_all_iff)
  have others: "conns_at (replace_bucket k new p) x = conns_at p x \<and>
                rr_at (replace_bucket k new p) x = rr_at p x" if "x \<noteq> k" for x
    using that by (simp add: conns_at_def rr_at_def replace_bucket_frame)
  show ?thesis
  proof (cases "new = []")
    case True
    have gone: "nodeOrder (replace_bucket k new p) = remove1 k (nodeOrder p)"
      using replace_bucket_empty [of k p] True by simp
    have dom: "fmdom' (nodeConnections (replace_bucket k new p)) = fmdom' (nodeConnections p) - {k}"
      using True by (simp add: replace_bucket_def Let_def remove_from_nodeOrder_frame)
    have ninv: "node_order_inv (replace_bucket k new p)"
      using inv by (simp add: node_order_inv_def gone dom)
    have rest: "x \<noteq> k \<and> x \<in> set (nodeOrder p)" if "x \<in> set (remove1 k (nodeOrder p))" for x
      using inv(1) that by simp
    have "conns_at (replace_bucket k new p) x \<noteq> [] \<and>
          rr_at (replace_bucket k new p) x < length (conns_at (replace_bucket k new p) x)"
      if "x \<in> set (remove1 k (nodeOrder p))" for x
      using rest [OF that] old [of x] others [of x] by simp
    with ninv show ?thesis
      by (simp add: pool_wf_def list_all_iff gone)
  next
    case False
    have kept: "fmlookup (nodeConnections (replace_bucket k new p)) k = Some new"
               "rr_at (replace_bucket k new p) k = (if length new \<le> rr_at p k then 0 else rr_at p k)"
               "nodeOrder (replace_bucket k new p) = nodeOrder p"
      using replace_bucket_nonempty [OF False, of k p] by simp_all
    have dom: "fmdom' (nodeConnections (replace_bucket k new p)) = insert k (fmdom' (nodeConnections p))"
      using False by (simp add: replace_bucket_def Let_def)
    have ninv: "node_order_inv (replace_bucket k new p)"
      using inv assms(2) by (simp add: node_order_inv_def kept(3) dom insert_absorb)
    have atk: "conns_at (replace_bucket k new p) k = new"
      by (simp add: conns_at_def kept(1))
    have "conns_at (replace_bucket k new p) x \<noteq> [] \<and>
          rr_at (replace_bucket k new p) x < length (conns_at (replace_bucket k new p) x)"
      if "x \<in> set (nodeOrder p)" for x
    proof (cases "x = k")
      case True
      with False show ?thesis by (simp add: atk kept(2))
    next
      case False
      with old [OF that] others [of x] show ?thesis by simp
    qed
    with ninv show ?thesis
      by (simp add: pool_wf_def list_all_iff kept(3))
  qed
qed


lemma pool_wf_cursors: "pool_wf p \<Longrightarrow> cursors_in_range p"
  by (simp add: pool_wf_def cursors_in_range_def list_all_iff)

lemma pool_wf_New: "pool_wf (NewConnectionPool isWrite maxRead maxWrite)"
  by (simp add: pool_wf_def node_order_inv_def NewConnectionPool_def)

lemma pool_wf_Clear: "pool_wf (Clear p)"
  by (simp add: pool_wf_def node_order_inv_def Clear_def)

lemma pool_wf_add_node_batch:
  assumes "pool_wf p" and "cs \<noteq> []"
  shows "pool_wf (add_node_batch k cs p)"
proof -
  have inv: "node_order_inv (add_node_batch k cs p)"
    using assms(1) by (simp add: pool_wf_def add_node_batch_inv)
  have old: "\<And>x. x \<in> set (nodeOrder p) \<Longrightarrow> conns_at p x \<noteq> [] \<and> rr_at p x < length (conns_at p x)"
    using assms(1) by (simp add: pool_wf_def list_all_iff)
  have "conns_at (add_node_batch k cs p) x \<noteq> [] \<and>
        rr_at (add_node_batch k cs p) x < length (conns_at (add_node_batch k cs p) x)"
    if x: "x \<in> set (nodeOrder (add_node_batch k cs p))" for x
  proof (cases "fmlookup (nodeConnections p) k")
    case None
    then have "k \<notin> set (nodeOrder p)"
      using assms(1) by (simp add: pool_wf_def node_order_inv_def fmdom'_notI)
    with None x old show ?thesis
      using assms(2)
      by (cases "x = k") (auto simp: add_node_batch_def Let_def conns_at_def rr_at_def)
  next
    case (Some cs0)
    then have "k \<in> set (nodeOrder p)"
      using assms(1) by (simp add: pool_wf_def node_order_inv_def fmdom'I)
    with Some x old [of x] old [of k] show ?thesis
      by (cases "x = k") (auto simp: add_node_batch_def Let_def conns_at_def rr_at_def)
  qed
  with inv show ?thesis by (simp add: pool_wf_def list_all_iff)
qed

lemma Add_add_node_batch: "Add h conn p = add_node_batch (NodeID (h conn)) [conn] p"
  by (simp add: Add_def add_node_batch_def Let_def)

lemma pool_wf_Add: "pool_wf p \<Longrightarrow> pool_wf (Add h conn p)"
  by (simp add: Add_add_node_batch pool_wf_add_node_batch)

lemma pool_wf_AddBatch:
  assumes "pool_wf p"
  shows "pool_wf (AddBatch h ks conns p)"
proof -
  have step: "pool_wf (batch_step (connsByNode h conns) k q)" if q: "pool_wf q" for k q
  proof (cases "k \<in> (\<lambda>c. NodeID (h c)) ` set conns")
    case True
    then have "filter (\<lambda>c. NodeID (h c) = k) conns \<noteq> []"
      by (auto simp: filter_empty_conv)
    with True q show ?thesis
      by (simp add: batch_step_def connsByNode_lookup pool_wf_add_node_batch)
  next
    case False
    with q show ?thesis by (simp add: batch_step_def connsByNode_lookup)
  qed
  have "pool_wf (fold (batch_step (connsByNode h conns)) ks p)"
    using assms by (induction ks arbitrary: p) (simp_all add: step)
  with assms show ?thesis by (simp add: AddBatch_def)
qed

lemma pool_wf_GetConnection:
  assumes "pool_wf p" and "GetConnection now h p = (res, h', p')"
  shows "pool_wf p'"
proof (cases "\<exists>j < length (nodeOrder p).
                conns_at p (nodeOrder p ! ((nodeOrderIndex p + j) mod length (nodeOrder p))) \<noteq> []")
  case False
  then have "\<forall>i < length (nodeOrder p).
               conns_at p (nodeOrder p ! ((nodeOrderIndex p + i) mod length (nodeOrder p))) = []"
    by blast
  with GetConnection_scan [OF pool_wf_cursors [OF assms(1)], of now h] assms(2)
  have "p' = p" by simp
  with assms(1) show ?thesis by simp
next
  case True
  define j where "j = (LEAST j. j < length (nodeOrder p) \<and>
                conns_at p (nodeOrder p ! ((nodeOrderIndex p + j) mod length (nodeOrder p))) \<noteq> [])"
  from True have j: "j < length (nodeOrder p) \<and>
                conns_at p (nodeOrder p ! ((nodeOrderIndex p + j) mod length (nodeOrder p))) \<noteq> []"
    unfolding j_def by (elim exE) (rule LeastI, blast)
  have first: "\<forall>i < j. conns_at p (nodeOrder p ! ((nodeOrderIndex p + i) mod length (nodeOrder p))) = []"
  proof (intro allI impI)
    fix i assume "i < j"
    then have "\<not> (i < length (nodeOrder p) \<and>
                conns_at p (nodeOrder p ! ((nodeOrderIndex p + i) mod length (nodeOrder p))) \<noteq> [])"
      unfolding j_def by (rule not_less_Least)
    with \<open>i < j\<close> j show "conns_at p (nodeOrder p ! ((nodeOrderIndex p + i) mod length (nodeOrder p))) = []"
      by simp
  qed
  let ?nodeIdx = "(nodeOrderIndex p + j) mod length (nodeOrder p)"
  let ?nodeID = "nodeOrder p ! ?nodeIdx"
  from GetConnection_scan [OF pool_wf_cursors [OF assms(1)], of now h] j first assms(2)
  have p': "p' = p\<lparr>nodeRoundRobinIndices :=
                     fmupd ?nodeID ((rr_at p ?nodeID + 1) mod length (conns_at p ?nodeID))
                       (nodeRoundRobinIndices p),
                   nodeOrderIndex := (?nodeIdx + 1) mod length (nodeOrder p)\<rparr>"
    by (simp add: Let_def)
  have pos: "0 < length (conns_at p ?nodeID)" using j by simp
  have old: "\<And>x. x \<in> set (nodeOrder p) \<Longrightarrow> conns_at p x \<noteq> [] \<and> rr_at p x < length (conns_at p x)"
    using assms(1) by (simp add: pool_wf_def list_all_iff)
  have "conns_at p' x \<noteq> [] \<and> rr_at p' x < length (conns_at p' x)" if "x \<in> set (nodeOrder p)" for x
    using old [OF that] pos by (cases "x = ?nodeID") (simp_all add: p' conns_at_def rr_at_def)
  moreover have "node_order_inv p'"
    using assms(1) by (simp add: pool_wf_def node_order_inv_def p')
  ultimately show ?thesis by (simp add: pool_wf_def list_all_iff p')
qed

lemma pool_wf_GetConnection_returns:
  assumes "pool_wf p" and "nodeOrder p \<noteq> []"
  shows "\<exists>conn. fst (GetConnection now h p) = Inr conn"
proof -
  from assms have first: "conns_at p (nodeOrder p ! ((nodeOrderIndex p + 0) mod length (nodeOrder p))) \<noteq> []"
    by (simp add: pool_wf_def list_all_length)
  from assms(2) have len: "0 < length (nodeOrder p)" by simp
  from GetConnection_scan [OF pool_wf_cursors [OF assms(1)], of now h] len first
  show ?thesis by (auto simp: Let_def)
qed

lemma pool_wf_reap_node:
  assumes "pool_wf (snd s)"
  shows "pool_wf (snd (reap_node h now t m k s))"
proof (cases "fmlookup (nodeConnections (snd s)) k")
  case None
  with assms show ?thesis by (simp add: reap_node_def)
next
  case (Some conns)
  then have "k \<in> set (nodeOrder (snd s))"
    using assms by (simp add: pool_wf_def node_order_inv_def fmdom'I)
  with Some assms show ?thesis
    by (simp add: reap_node_def Let_def pool_wf_replace_bucket)
qed

lemma pool_wf_RemoveIdleConnections:
  assumes "pool_wf p"
  shows "pool_wf (snd (RemoveIdleConnections h now ks idleTimeout minSizePerNode p))"
proof -
  have "pool_wf (snd s) \<Longrightarrow> pool_wf (snd (fold (reap_node h now idleTimeout minSizePerNode) ks s))" for s
    by (induction ks arbitrary: s) (simp_all add: pool_wf_reap_node)
  with assms show ?thesis by (simp add: RemoveIdleConnections_def)
qed

text \<open>
  Remove shortens the bucket and leaves the node's cursor as it was. When the cursor pointed at
  the last session and GetConnection comes to that node next, it indexes the bucket past its end.
\<close>

lemma Remove_present:
  assumes "fmlookup (nodeConnections p) (NodeID (h conn)) = Some cs"
      and "conn \<in> set cs" and "1 < length cs"
  shows "Remove h conn p =
           (True, p\<lparr>nodeConnections := fmupd (NodeID (h conn)) (remove1 conn cs) (nodeConnections p)\<rparr>)"
proof -
  from assms(2) obtain i where i: "index_from conn cs 0 = Some i"
    using index_from_Some_iff [of conn cs 0] by blast
  from index_from_cut [OF i] have cut: "take i cs @ drop (Suc i) cs = remove1 conn cs"
    by simp
  have "length (remove1 conn cs) = length cs - 1"
    using assms(2) by (simp add: length_remove1)
  with assms(3) have "length (remove1 conn cs) \<noteq> 0" by simp
  with assms(1) i cut show ?thesis
    by (simp add: Remove_def Let_def)
qed

lemma GetConnection_after_Remove:
  assumes "fmlookup (nodeConnections p) (NodeID (h conn)) = Some cs"
      and "conn \<in> set cs" and "1 < length cs"
      and "rr_at p (NodeID (h conn)) = length cs - 1"
      and "nodeOrder p \<noteq> []"
      and "nodeOrder p ! (nodeOrderIndex p mod length (nodeOrder p)) = NodeID (h conn)"
  shows "GetConnection now h' (snd (Remove h conn p)) =
           (Inl (Panic ''index out of range''), h', snd (Remove h conn p))"
proof -
  let ?p = "p\<lparr>nodeConnections := fmupd (NodeID (h conn)) (remove1 conn cs) (nodeConnections p)\<rparr>"
  have len: "length (remove1 conn cs) = length cs - 1"
    using assms(2) by (simp add: length_remove1)
  from assms(3) len have ne: "remove1 conn cs \<noteq> []"
    by (cases "remove1 conn cs") simp_all
  have "GetConnection_loop now h' ?p (nodeOrderIndex ?p) 0 = (Inl (Panic ''index out of range''), h', ?p)"
    using assms(4-6) len ne
    by (subst GetConnection_loop.simps) (simp add: Let_def conns_at_def rr_at_def)
  moreover have "Remove h conn p = (True, ?p)"
    using assms(1-3) by (rule Remove_present)
  ultimately show ?thesis
    using assms(5) by (simp add: GetConnection_def)
qed

lemma ex_two_eq:
  "ex_two = \<lparr>nodeConnections = fmupd ''a'' [0, 1] fmempty,
      nodeRoundRobinIndices = fmupd ''a'' 0 fmempty,
      nodeOrder = [''a''], nodeOrderIndex = 0, isWritePool = False, maxPool = 10,
      maxWritePool = 1, nodeHTTPClients = fmempty\<rparr>"
  by (simp add: ex_two_def Add_def NewConnectionPool_def ex_heap_def Let_def conns_at_def)

lemma ex_two_GetConnection:
  "GetConnection 5 ex_heap ex_two =
     (Inr 0, ex_heap(0 := (ex_heap 0)\<lparr>LastUsed := 5\<rparr>),
      ex_two\<lparr>nodeRoundRobinIndices := fmupd ''a'' 1 (nodeRoundRobinIndices ex_two)\<rparr>)"
  unfolding GetConnection_def
  by (subst GetConnection_loop.simps) (simp add: ex_two_eq Let_def conns_at_def rr_at_def)

lemma ex_two_Remove:
  "Remove (ex_heap(0 := (ex_heap 0)\<lparr>LastUsed := 5\<rparr>)) 1
      (ex_two\<lparr>nodeRoundRobinIndices := fmupd ''a'' 1 (nodeRoundRobinIndices ex_two)\<rparr>) =
   (True, \<lparr>nodeConnections = fmupd ''a'' [0] fmempty,
      nodeRoundRobinIndices = fmupd ''a'' 1 fmempty,
      nodeOrder = [''a''], nodeOrderIndex = 0, isWritePool = False, maxPool = 10,
      maxWritePool = 1, nodeHTTPClients = fmempty\<rparr>)"
  by (simp add: Remove_def ex_two_eq ex_heap_def Let_def)

lemma ex_two_GetConnection_again:
  "GetConnection 6 h \<lparr>nodeConnections = fmupd ''a'' [0] fmempty,
      nodeRoundRobinIndices = fmupd ''a'' 1 fmempty,
      nodeOrder = [''a''], nodeOrderIndex = 0, isWritePool = False, maxPool = 10,
      maxWritePool = 1, nodeHTTPClients = fmempty\<rparr> =
    (Inl (Panic ''index out of range''), h, \<lparr>nodeConnections = fmupd ''a'' [0] fmempty,
      nodeRoundRobinIndices = fmupd ''a'' 1 fmempty,
      nodeOrder = [''a''], nodeOrderIndex = 0, isWritePool = False, maxPool = 10,
      maxWritePool = 1, nodeHTTPClients = fmempty\<rparr>)"
  unfolding GetConnection_def
  by (subst GetConnection_loop.simps) (simp add: Let_def conns_at_def rr_at_def)

text \<open>
  C4. GetConnection does not serve every pool state. Two sessions of one node are added to a new
  pool and GetConnection returns the first, which moves the node's cursor to 1. Remove then takes
  the second session out: the bucket keeps one session and the cursor stays at 1, because Remove
  never looks at it. The next GetConnection finds the bucket non-empty and indexes it at the
  cursor, past its end: it panics instead of returning the session that is there.
\<close>

theorem GetConnection_panics_after_Remove:
  "(let p = Add ex_heap 1 (Add ex_heap 0 (NewConnectionPool False 10 1));
        (r, h, p') = GetConnection 5 ex_heap p;
        (removed, p'') = Remove h 1 p'
    in r = Inr 0 \<and> removed \<and> conns_at p'' ''a'' = [0] \<and> rr_at p'' ''a'' = 1 \<and>
       GetConnection 6 h p'' = (Inl (Panic ''index out of range''), h, p''))"
  using ex_two_GetConnection ex_two_Remove ex_two_GetConnection_again
  by (simp add: ex_two_def Let_def conns_at_def rr_at_def)

section \<open>Shutdown and periodic cleanup\<close>

lemma Close_twice_panics:
  assumes "cleanupTimer c = Some t" and "Close c = Inr c1"
  shows "Close c1 = Inl (Panic ''close of closed channel'')"
proof -
  from assms have "cleanupDone c = OpenChan"
    by (cases "cleanupDone c") (auto simp: Close_def CloseConnections_def close_chan_def Let_def Timer_Stop_def
        split: sum.splits)
  with assms have "cleanupTimer c1 \<noteq> None \<and> cleanupDone c1 = ClosedChan"
    by (auto simp: Close_def CloseConnections_def close_chan_def Let_def Timer_Stop_def split: sum.splits)
  then show ?thesis
    by (auto simp: Close_def CloseConnections_def close_chan_def Let_def Timer_Stop_def split: prod.splits)
qed

lemma Close_twice_without_timer:
  assumes "cleanupTimer c = None" and "Close c = Inr c1"
  shows "Close c1 = Inr c1"
  using assms
  by (auto simp: Close_def CloseConnections_def Clear_def Let_def)

text \<open>
  C2. Once the cleanup timer has been started (InitializePool starts it on a successful Connect),
  a first Close completes: the client is disconnected, the leader session is dropped and both
  pools are empty. The timer stays non-nil and its done channel stays closed, so the second Close
  closes a closed channel: a runtime panic, not a no-op.
\<close>

theorem Close_second_call_panics:
  "\<exists>c1. Close (startCleanupTimer ex_client) = Inr c1 \<and>
        Connected c1 = False \<and> leaderConn c1 = None \<and>
        Size (readPool c1) = 0 \<and> Size (writePool c1) = 0 \<and>
        Close c1 = Inl (Panic ''close of closed channel'')"
proof -
  obtain c1 where first: "Close (startCleanupTimer ex_client) = Inr c1"
    by (simp add: Close_def CloseConnections_def close_chan_def Let_def Timer_Stop_def startCleanupTimer_def)
  have timer: "cleanupTimer (startCleanupTimer ex_client) = Some \<lparr>t_active = True, t_pending = False\<rparr>"
    by (simp add: startCleanupTimer_def)
  have second: "Close c1 = Inl (Panic ''close of closed channel'')"
    using Close_twice_panics [OF timer first] .
  have cleared: "Connected c1 = False \<and> leaderConn c1 = None \<and> Size (readPool c1) = 0 \<and> Size (writePool c1) = 0"
    using first
    by (auto simp: Close_def CloseConnections_def close_chan_def Let_def Timer_Stop_def startCleanupTimer_def
        Clear_def Size_def)
  show ?thesis using first second cleared by blast
qed

text \<open>
  C3. cleanupIdleConnections hands \<open>MinPoolSize\<close> to RemoveIdleConnections, not
  \<open>ScaleUpBatchSize\<close>. With \<open>MinPoolSize = 1\<close> and \<open>ScaleUpBatchSize = 3\<close>, a node holding
  three idle read sessions is cut down to one session by a single cleanup.
\<close>

theorem cleanup_ignores_ScaleUpBatchSize:
  "ScaleUpBatchSize (poolConfig ex_client) = 3 \<and>
   MinPoolSize (poolConfig ex_client) = 1 \<and>
   SizeForNode (readPool ex_client) ''a'' = 3 \<and>
   SizeForNode (readPool (cleanupIdleConnections [''a''] [''a''] [''a''] [''a''] ex_client ex_world)) ''a'' = 1"
  by (simp add: cleanupIdleConnections_def RemoveIdleConnections_def reap_node_def willRemove_of_def
      newConnList_of_def replace_bucket_def is_idle_def time_Sub_def maxDuration_def minDuration_def
      ex_heap_def ex_client_def ex_world_def ex_poolConfig_def ex_status_def NewConnectionPool_def
      conns_at_def rr_at_def remove_from_nodeOrder_def SizeForNode_def cleanup_update_stats_def
      getOrCreateNodeStats_def put_stats_def stats_map_def Let_def)

lemma cleanup_update_stats_present:
  assumes "fmlookup (statsPerNodeRead c) k = Some s"
  shows "cleanup_update_stats now b k c =
           c\<lparr>statsPerNodeRead :=
                fmupd k (s\<lparr>CurrentConnections := SizeForNode (if b then writePool c else readPool c) k,
                           LastScaleDown := now, LastCleanup := now,
                           ScaleDownEvents := ScaleDownEvents s + 1\<rparr>) (statsPerNodeRead c)\<rparr>"
  using assms
  by (simp add: cleanup_update_stats_def getOrCreateNodeStats_def stats_map_def put_stats_def)

lemma cleanup_update_stats_pools:
  "readPool (cleanup_update_stats now b k c) = readPool c"
  "writePool (cleanup_update_stats now b k c) = writePool c"
  "statsPerNodeWrite (cleanup_update_stats now b k c) = statsPerNodeWrite c"
  by (simp_all add: cleanup_update_stats_def getOrCreateNodeStats_def stats_map_def put_stats_def Let_def
      split: option.splits)

lemma fold_cleanup_update_stats:
  assumes "distinct ks" and "set ks \<subseteq> fmdom' (statsPerNodeRead c)"
  shows "readPool (fold (cleanup_update_stats now b) ks c) = readPool c \<and>
         writePool (fold (cleanup_update_stats now b) ks c) = writePool c \<and>
         statsPerNodeWrite (fold (cleanup_update_stats now b) ks c) = statsPerNodeWrite c \<and>
         (\<forall>k. fmlookup (statsPerNodeRead (fold (cleanup_update_stats now b) ks c)) k =
               (case fmlookup (statsPerNodeRead c) k of
                  None \<Rightarrow> None
                | Some s \<Rightarrow>
                    Some (if k \<in> set ks
                          then s\<lparr>CurrentConnections := SizeForNode (if b then writePool c else readPool c) k,
                                 LastScaleDown := now, LastCleanup := now,
                                 ScaleDownEvents := ScaleDownEvents s + 1\<rparr>
                          else s)))"
  using assms
proof (induction ks arbitrary: c)
  case Nil
  then show ?case by (simp split: option.splits)
next
  case (Cons a ks)
  then obtain s where s: "fmlookup (statsPerNodeRead c) a = Some s"
    by (auto simp: fmlookup_dom'_iff)
  let ?c1 = "cleanup_update_stats now b a c"
  have c1: "?c1 = c\<lparr>statsPerNodeRead :=
                fmupd a (s\<lparr>CurrentConnections := SizeForNode (if b then writePool c else readPool c) a,
                           LastScaleDown := now, LastCleanup := now,
                           ScaleDownEvents := ScaleDownEvents s + 1\<rparr>) (statsPerNodeRead c)\<rparr>"
    by (rule cleanup_update_stats_present [OF s])
  have pools: "readPool ?c1 = readPool c" "writePool ?c1 = writePool c"
              "statsPerNodeWrite ?c1 = statsPerNodeWrite c"
    by (simp_all add: c1)
  have pick: "(if b then writePool ?c1 else readPool ?c1) = (if b then writePool c else readPool c)"
    by (simp only: pools)
  have dom: "set ks \<subseteq> fmdom' (statsPerNodeRead ?c1)"
    using Cons.prems(2) by (auto simp: c1)
  have dist: "distinct ks" and notin: "a \<notin> set ks" using Cons.prems(1) by simp_all
  note IH = Cons.IH [OF dist dom]
  have look1: "\<And>k. fmlookup (statsPerNodeRead ?c1) k =
                 (if a = k then Some (s\<lparr>CurrentConnections := SizeForNode (if b then writePool c else readPool c) a,
                           LastScaleDown := now, LastCleanup := now,
                           ScaleDownEvents := ScaleDownEvents s + 1\<rparr>)
                  else fmlookup (statsPerNodeRead c) k)"
    by (simp add: c1)
  show ?case
  proof (intro conjI allI)
    show "readPool (fold (cleanup_update_stats now b) (a # ks) c) = readPool c"
      using IH pools by simp
    show "writePool (fold (cleanup_update_stats now b) (a # ks) c) = writePool c"
      using IH pools by simp
    show "statsPerNodeWrite (fold (cleanup_update_stats now b) (a # ks) c) = statsPerNodeWrite c"
      using IH pools by simp
    fix k
    have "fmlookup (statsPerNodeRead (fold (cleanup_update_stats now b) (a # ks) c)) k =
            (case fmlookup (statsPerNodeRead ?c1) k of
               None \<Rightarrow> None
             | Some s' \<Rightarrow>
                 Some (if k \<in> set ks
                       then s'\<lparr>CurrentConnections := SizeForNode (if b then writePool ?c1 else readPool ?c1) k,
                               LastScaleDown := now, LastCleanup := now,
                               ScaleDownEvents := ScaleDownEvents s' + 1\<rparr>
                       else s'))"
      using IH by simp
    also have "\<dots> = (case fmlookup (statsPerNodeRead c) k of
                  None \<Rightarrow> None
                | Some s \<Rightarrow>
                    Some (if k \<in> set (a # ks)
                          then s\<lparr>CurrentConnections := SizeForNode (if b then writePool c else readPool c) k,
                                 LastScaleDown := now, LastCleanup := now,
                                 ScaleDownEvents := ScaleDownEvents s + 1\<rparr>
                          else s))"
    proof (cases "k = a")
      case True
      have "fmlookup (statsPerNodeRead ?c1) a =
              Some (s\<lparr>CurrentConnections := SizeForNode (if b then writePool c else readPool c) a,
                           LastScaleDown := now, LastCleanup := now,
                           ScaleDownEvents := ScaleDownEvents s + 1\<rparr>)"
        by (simp add: look1)
      then show ?thesis
        unfolding True using notin s by (simp add: cleanup_update_stats_pools cong: if_cong split del: if_split)
    next
      case False
      then have "fmlookup (statsPerNodeRead ?c1) k = fmlookup (statsPerNodeRead c) k"
        by (simp add: look1)
      then show ?thesis
        using False
        by (cases "fmlookup (statsPerNodeRead c) k") (simp_all add: cleanup_update_stats_pools cong: if_cong split del: if_split)
    qed
    finally show "fmlookup (statsPerNodeRead (fold (cleanup_update_stats now b) (a # ks) c)) k =
            (case fmlookup (statsPerNodeRead c) k of
                  None \<Rightarrow> None
                | Some s \<Rightarrow>
                    Some (if k \<in> set (a # ks)
                          then s\<lparr>CurrentConnections := SizeForNode (if b then writePool c else readPool c) k,
                                 LastScaleDown := now, LastCleanup := now,
                                 ScaleDownEvents := ScaleDownEvents s + 1\<rparr>
                          else s))" .
  qed
qed


lemma cleanup_pass:
  assumes "range_order ks (statsPerNodeRead c)"
  shows "readPool (fold (cleanup_update_stats now b) ks c) = readPool c"
    and "writePool (fold (cleanup_update_stats now b) ks c) = writePool c"
    and "statsPerNodeWrite (fold (cleanup_update_stats now b) ks c) = statsPerNodeWrite c"
    and "fmdom' (statsPerNodeRead (fold (cleanup_update_stats now b) ks c)) = fmdom' (statsPerNodeRead c)"
    and "fmlookup (statsPerNodeRead c) k = Some s \<Longrightarrow>
           fmlookup (statsPerNodeRead (fold (cleanup_update_stats now b) ks c)) k =
             Some (s\<lparr>CurrentConnections := SizeForNode (if b then writePool c else readPool c) k,
                      LastScaleDown := now, LastCleanup := now,
                      ScaleDownEvents := ScaleDownEvents s + 1\<rparr>)"
proof -
  have d: "distinct ks" and sub: "set ks \<subseteq> fmdom' (statsPerNodeRead c)" and all: "set ks = fmdom' (statsPerNodeRead c)"
    using assms by (simp_all add: range_order_def)
  note F = fold_cleanup_update_stats [OF d sub, of now b]
  show "readPool (fold (cleanup_update_stats now b) ks c) = readPool c"
    and "writePool (fold (cleanup_update_stats now b) ks c) = writePool c"
    and "statsPerNodeWrite (fold (cleanup_update_stats now b) ks c) = statsPerNodeWrite c"
    using F by simp_all
  have look: "\<And>k. fmlookup (statsPerNodeRead (fold (cleanup_update_stats now b) ks c)) k =
               (case fmlookup (statsPerNodeRead c) k of
                  None \<Rightarrow> None
                | Some s \<Rightarrow>
                    Some (if k \<in> set ks
                          then s\<lparr>CurrentConnections := SizeForNode (if b then writePool c else readPool c) k,
                                 LastScaleDown := now, LastCleanup := now,
                                 ScaleDownEvents := ScaleDownEvents s + 1\<rparr>
                          else s))"
    using F by blast
  have "\<And>k. k \<in> fmdom' (statsPerNodeRead (fold (cleanup_update_stats now b) ks c)) \<longleftrightarrow>
             k \<in> fmdom' (statsPerNodeRead c)"
    by (simp add: fmlookup_dom'_iff look split: option.splits)
  then show "fmdom' (statsPerNodeRead (fold (cleanup_update_stats now b) ks c)) = fmdom' (statsPerNodeRead c)"
    by blast
  assume s: "fmlookup (statsPerNodeRead c) k = Some s"
  then have "k \<in> set ks" using all by (simp add: fmdom'I)
  with s show "fmlookup (statsPerNodeRead (fold (cleanup_update_stats now b) ks c)) k =
             Some (s\<lparr>CurrentConnections := SizeForNode (if b then writePool c else readPool c) k,
                      LastScaleDown := now, LastCleanup := now,
                      ScaleDownEvents := ScaleDownEvents s + 1\<rparr>)"
    by (simp add: look)
qed

text \<open>
  C9. cleanupIdleConnections never touches the write-intent statistics. Every read-intent entry
  ends with its \<open>CurrentConnections\<close> set from the write pool's size for that node when only
  read sessions were removed, and from the read pool's size when write sessions were removed
  (that pass runs second); it counts one scale-down event per pool that lost sessions.
\<close>

theorem cleanup_updates_read_stats_only:
  assumes "status c \<noteq> None"
      and "range_order ksS1 (statsPerNodeRead c)"
      and "range_order ksS2 (statsPerNodeRead c)"
  shows "let readRemoved = fst (RemoveIdleConnections (heap w) (clock w) ksR (IdleTimeout (poolConfig c))
                                  (MinPoolSize (poolConfig c)) (readPool c));
             writeRemoved = fst (RemoveIdleConnections (heap w) (clock w) ksW (IdleTimeout (poolConfig c))
                                   (MinPoolSize (poolConfig c)) (writePool c));
             c' = cleanupIdleConnections ksR ksW ksS1 ksS2 c w
         in statsPerNodeWrite c' = statsPerNodeWrite c \<and>
            fmdom' (statsPerNodeRead c') = fmdom' (statsPerNodeRead c) \<and>
            (\<forall>nodeID s. fmlookup (statsPerNodeRead c) nodeID = Some s \<longrightarrow>
               (\<exists>s'. fmlookup (statsPerNodeRead c') nodeID = Some s' \<and>
                     CurrentConnections s' =
                       (if writeRemoved > 0 then SizeForNode (readPool c') nodeID
                        else if readRemoved > 0 then SizeForNode (writePool c') nodeID
                        else CurrentConnections s) \<and>
                     ScaleDownEvents s' =
                       ScaleDownEvents s + (if readRemoved > 0 then 1 else 0)
                         + (if writeRemoved > 0 then 1 else 0)))"
proof -
  define rr where "rr = RemoveIdleConnections (heap w) (clock w) ksR (IdleTimeout (poolConfig c))
                          (MinPoolSize (poolConfig c)) (readPool c)"
  define wr where "wr = RemoveIdleConnections (heap w) (clock w) ksW (IdleTimeout (poolConfig c))
                          (MinPoolSize (poolConfig c)) (writePool c)"
  define c1 where "c1 = c\<lparr>readPool := snd rr, writePool := snd wr\<rparr>"
  define c2 where "c2 = (if fst rr > 0 then fold (cleanup_update_stats (clock w) True) ksS1 c1 else c1)"
  define c3 where "c3 = (if fst wr > 0 then fold (cleanup_update_stats (clock w) False) ksS2 c2 else c2)"
  obtain st where st: "status c = Some st"
    using assms(1) by blast
  have result: "cleanupIdleConnections ksR ksW ksS1 ksS2 c w = c3"
    by (simp add: cleanupIdleConnections_def Let_def st rr_def wr_def c1_def c2_def c3_def
        split: prod.splits)
  have r1: "range_order ksS1 (statsPerNodeRead c1)" and r1': "range_order ksS2 (statsPerNodeRead c1)"
    using assms(2,3) by (simp_all add: c1_def)
  have c1_stats: "statsPerNodeRead c1 = statsPerNodeRead c" "statsPerNodeWrite c1 = statsPerNodeWrite c"
    by (simp_all add: c1_def)
  have c2_pools: "readPool c2 = readPool c1" "writePool c2 = writePool c1"
                 "statsPerNodeWrite c2 = statsPerNodeWrite c1"
                 "fmdom' (statsPerNodeRead c2) = fmdom' (statsPerNodeRead c1)"
    using cleanup_pass(1-4) [OF r1, of "clock w" True] by (simp_all add: c2_def)
  have r2: "range_order ksS2 (statsPerNodeRead c2)"
    using r1' c2_pools(4) by (simp add: range_order_def)
  have c3_pools: "readPool c3 = readPool c2" "writePool c3 = writePool c2"
                 "statsPerNodeWrite c3 = statsPerNodeWrite c2"
                 "fmdom' (statsPerNodeRead c3) = fmdom' (statsPerNodeRead c2)"
    using cleanup_pass(1-4) [OF r2, of "clock w" False] by (simp_all add: c3_def)
  have per_node: "\<exists>s'. fmlookup (statsPerNodeRead c3) nodeID = Some s' \<and>
                     CurrentConnections s' =
                       (if fst wr > 0 then SizeForNode (readPool c3) nodeID
                        else if fst rr > 0 then SizeForNode (writePool c3) nodeID
                        else CurrentConnections s) \<and>
                     ScaleDownEvents s' =
                       ScaleDownEvents s + (if fst rr > 0 then 1 else 0) + (if fst wr > 0 then 1 else 0)"
    if s: "fmlookup (statsPerNodeRead c) nodeID = Some s" for nodeID s
  proof -
    from s have s1: "fmlookup (statsPerNodeRead c1) nodeID = Some s" by (simp add: c1_stats)
    obtain s2 where s2: "fmlookup (statsPerNodeRead c2) nodeID = Some s2"
      and cur2: "CurrentConnections s2 = (if fst rr > 0 then SizeForNode (writePool c1) nodeID else CurrentConnections s)"
      and ev2: "ScaleDownEvents s2 = ScaleDownEvents s + (if fst rr > 0 then 1 else 0)"
      using cleanup_pass(5) [OF r1 s1, of "clock w" True] s1 by (cases "fst rr > 0") (simp_all add: c2_def)
    obtain s3 where s3: "fmlookup (statsPerNodeRead c3) nodeID = Some s3"
      and cur3: "CurrentConnections s3 = (if fst wr > 0 then SizeForNode (readPool c2) nodeID else CurrentConnections s2)"
      and ev3: "ScaleDownEvents s3 = ScaleDownEvents s2 + (if fst wr > 0 then 1 else 0)"
      using cleanup_pass(5) [OF r2 s2, of "clock w" False] s2 by (cases "fst wr > 0") (simp_all add: c3_def)
    show ?thesis
      using s3 cur3 ev3 cur2 ev2 c2_pools c3_pools by auto
  qed
  show ?thesis
    unfolding Let_def result rr_def [symmetric] wr_def [symmetric]
    using per_node c1_stats c2_pools c3_pools by simp
qed

theorem cleanup_updates_read_stats_only_witness:
  "status ex_client2 \<noteq> None \<and>
   range_order [''a''] (statsPerNodeRead ex_client2) \<and>
   statsPerNodeWrite (cleanupIdleConnections [''a''] [''a''] [''a''] [''a''] ex_client2 ex_world) =
     statsPerNodeWrite ex_client2 \<and>
   SizeForNode (readPool (cleanupIdleConnections [''a''] [''a''] [''a''] [''a''] ex_client2 ex_world)) ''a'' = 2 \<and>
   (\<exists>s'. fmlookup (statsPerNodeRead (cleanupIdleConnections [''a''] [''a''] [''a''] [''a''] ex_client2 ex_world)) ''a''
           = Some s' \<and>
         CurrentConnections s' = 1 \<and> ScaleDownEvents s' = 1)"
proof -
  let ?c' = "cleanupIdleConnections [''a''] [''a''] [''a''] [''a''] ex_client2 ex_world"
  have st: "status ex_client2 \<noteq> None"
    by (simp add: ex_client2_def ex_client_def)
  have r: "range_order [''a''] (statsPerNodeRead ex_client2)"
    by (simp add: range_order_def ex_client2_def ex_client_def)
  have s: "fmlookup (statsPerNodeRead ex_client2) ''a'' = Some (ex_stats ''a'')"
    by (simp add: ex_client2_def ex_client_def)
  have removed:
    "fst (RemoveIdleConnections (heap ex_world) (clock ex_world) [''a''] (IdleTimeout (poolConfig ex_client2))
            (MinPoolSize (poolConfig ex_client2)) (readPool ex_client2)) = 1"
    "fst (RemoveIdleConnections (heap ex_world) (clock ex_world) [''a''] (IdleTimeout (poolConfig ex_client2))
            (MinPoolSize (poolConfig ex_client2)) (writePool ex_client2)) = 0"
    by (simp_all add: RemoveIdleConnections_def reap_node_def willRemove_of_def newConnList_of_def
        replace_bucket_def is_idle_def time_Sub_def maxDuration_def minDuration_def ex_heap_def
        ex_client2_def ex_client_def ex_world_def ex_poolConfig_def NewConnectionPool_def conns_at_def
        rr_at_def Let_def)
  have sizes: "SizeForNode (writePool ?c') ''a'' = 1" "SizeForNode (readPool ?c') ''a'' = 2"
    by (simp_all add: cleanupIdleConnections_def RemoveIdleConnections_def reap_node_def willRemove_of_def
        newConnList_of_def replace_bucket_def is_idle_def time_Sub_def maxDuration_def minDuration_def
        ex_heap_def ex_client2_def ex_client_def ex_world_def ex_poolConfig_def ex_status_def
        NewConnectionPool_def conns_at_def rr_at_def remove_from_nodeOrder_def SizeForNode_def
        cleanup_update_stats_def getOrCreateNodeStats_def put_stats_def stats_map_def Let_def)
  have ev: "ScaleDownEvents (ex_stats ''a'') = 0"
    by (simp add: ex_stats_def)
  from cleanup_updates_read_stats_only [OF st r r, of ex_world "[''a'']" "[''a'']"]
  have w: "statsPerNodeWrite ?c' = statsPerNodeWrite ex_client2"
    and all: "\<forall>nodeID s. fmlookup (statsPerNodeRead ex_client2) nodeID = Some s \<longrightarrow>
               (\<exists>s'. fmlookup (statsPerNodeRead ?c') nodeID = Some s' \<and>
                     CurrentConnections s' = SizeForNode (writePool ?c') nodeID \<and>
                     ScaleDownEvents s' = ScaleDownEvents s + 1)"
    using removed by (simp_all add: Let_def)
  from all s obtain s' where "fmlookup (statsPerNodeRead ?c') ''a'' = Some s'"
    and "CurrentConnections s' = SizeForNode (writePool ?c') ''a''"
    and "ScaleDownEvents s' = ScaleDownEvents (ex_stats ''a'') + 1"
    by blast
  then have "\<exists>s'. fmlookup (statsPerNodeRead ?c') ''a'' = Some s' \<and>
              CurrentConnections s' = 1 \<and> ScaleDownEvents s' = 1"
    using sizes(1) ev by simp
  with w have "statsPerNodeWrite ?c' = statsPerNodeWrite ex_client2 \<and>
        (\<exists>s'. fmlookup (statsPerNodeRead ?c') ''a'' = Some s' \<and>
              CurrentConnections s' = 1 \<and> ScaleDownEvents s' = 1)"
    by simp
  then show ?thesis using st r sizes by simp
qed

section \<open>Scaling up\<close>

lemma sendHttpRequest_world:
  "sendHttpRequest e cn method endpoint data config withToken w = (res, w1)
   \<Longrightarrow> heap w1 = heap w \<and> nextRef w1 = nextRef w"
  by (auto simp: sendHttpRequest_def Let_def split: sum.splits prod.splits)

lemma store_new_token_world:
  "store_new_token r resp w = (err, w1)
   \<Longrightarrow> nextRef w1 = nextRef w \<and> (\<forall>r'. r' \<noteq> r \<longrightarrow> heap w1 r' = heap w r') \<and>
       NodeID (heap w1 r) = NodeID (heap w r)"
  by (auto simp: store_new_token_def split: sum.splits)

lemma newOrRefreshToken_world:
  assumes "newOrRefreshToken e config r refresh w = (err, w1)"
  shows "nextRef w1 = nextRef w \<and> (\<forall>r'. r' \<noteq> r \<longrightarrow> heap w1 r' = heap w r') \<and>
         NodeID (heap w1 r) = NodeID (heap w r)"
proof (cases refresh)
  case True
  show ?thesis
  proof (cases "tt_Refresh (Token (heap w r)) = []")
    case True
    with assms \<open>refresh\<close> show ?thesis by (simp add: newOrRefreshToken_def)
  next
    case False
    obtain resp x w0 where sent:
      "sendHttpRequest e (heap w r) ''POST'' ''/db/refresh''
         (Some (JObj (fmupd ''refresh_token'' (JStr (tt_Refresh (Token (heap w r)))) fmempty))) config False w
       = ((resp, x), w0)"
      by (metis surj_pair)
    note W = sendHttpRequest_world [OF sent]
    show ?thesis
    proof (cases x)
      case None
      with assms \<open>refresh\<close> False sent have "store_new_token r resp w0 = (err, w1)"
        by (simp add: newOrRefreshToken_def Let_def)
      from store_new_token_world [OF this] W show ?thesis by simp
    next
      case (Some a)
      with assms \<open>refresh\<close> False sent have "w1 = w0"
        by (auto simp: newOrRefreshToken_def Let_def split: option.splits)
      with W show ?thesis by simp
    qed
  qed
next
  case False
  obtain resp x w0 where sent:
    "sendHttpRequest e (heap w r) ''POST'' ''/db/connect'' (Some (userCredentialsFromConfig config))
       config False w = ((resp, x), w0)"
    by (metis surj_pair)
  note W = sendHttpRequest_world [OF sent]
  show ?thesis
  proof (cases x)
    case None
    with assms False sent have "store_new_token r resp w0 = (err, w1)"
      by (simp add: newOrRefreshToken_def Let_def)
    from store_new_token_world [OF this] W show ?thesis by simp
  next
    case (Some a)
    with assms False sent have "w1 = w0"
      by (auto simp: newOrRefreshToken_def Let_def)
    with W show ?thesis by simp
  qed
qed

lemma NewConnectionWithClient_world:
  "NewConnectionWithClient config url nodeID mode leader token cl w = (r, w1)
   \<Longrightarrow> r = nextRef w \<and> nextRef w1 = Suc (nextRef w) \<and>
       (\<forall>r'. r' \<noteq> nextRef w \<longrightarrow> heap w1 r' = heap w r') \<and>
       NodeID (heap w1 (nextRef w)) = norm_id nodeID"
  by (auto simp: NewConnectionWithClient_def Let_def norm_id_def)

lemma NewConnection_world:
  "NewConnection config url nodeID mode leader token w = (r, w1)
   \<Longrightarrow> r = nextRef w \<and> nextRef w1 = Suc (nextRef w) \<and>
       (\<forall>r'. r' \<noteq> nextRef w \<longrightarrow> heap w1 r' = heap w r') \<and>
       NodeID (heap w1 (nextRef w)) = norm_id nodeID"
  by (auto simp: NewConnection_def NewHTTPClient_def NewConnectionWithClient_def Let_def norm_id_def)

lemma getOrCreateNodeHTTPClient_world:
  "getOrCreateNodeHTTPClient nodeID c w = (cl, c1, w1)
   \<Longrightarrow> same_sessions c c1 \<and> heap w1 = heap w \<and> nextRef w1 = nextRef w"
  by (auto simp: getOrCreateNodeHTTPClient_def NewHTTPClient_def same_sessions_def Let_def
      split: option.splits)


lemma same_sessions_refl: "same_sessions c c"
  by (simp add: same_sessions_def)

lemma same_sessions_trans: "same_sessions c c1 \<Longrightarrow> same_sessions c1 c2 \<Longrightarrow> same_sessions c c2"
  by (simp add: same_sessions_def)

lemma createAndConnectNewConnection_world:
  assumes "createAndConnectNewConnection e url nodeID mode leader c w = (res, c1, w1)"
  shows "same_sessions c c1 \<and> nextRef w1 = Suc (nextRef w) \<and>
         (\<forall>r'. r' \<noteq> nextRef w \<longrightarrow> heap w1 r' = heap w r') \<and>
         NodeID (heap w1 (nextRef w)) = norm_id nodeID \<and>
         (\<forall>conn. res = Inr conn \<longrightarrow> conn = nextRef w)"
proof -
  obtain conn c0 w0 where made:
    "(if NodeUseMultiClient (poolConfig c)
      then (let (r, w') = NewConnection (Config c) url nodeID mode leader emptyToken w in (r, c, w'))
      else (let (httpClient, c', w') = getOrCreateNodeHTTPClient nodeID c w;
                (r, w'') = NewConnectionWithClient (Config c) url nodeID mode leader emptyToken httpClient w'
            in (r, c', w''))) = (conn, c0, w0)"
    by (metis prod_cases3)
  have fresh: "conn = nextRef w \<and> nextRef w0 = Suc (nextRef w) \<and>
               (\<forall>r'. r' \<noteq> nextRef w \<longrightarrow> heap w0 r' = heap w r') \<and>
               NodeID (heap w0 (nextRef w)) = norm_id nodeID \<and> same_sessions c c0"
  proof (cases "NodeUseMultiClient (poolConfig c)")
    case True
    with made obtain r w' where n: "NewConnection (Config c) url nodeID mode leader emptyToken w = (r, w')"
      and eq: "conn = r" "c0 = c" "w0 = w'"
      by (auto split: prod.splits)
    from NewConnection_world [OF n] eq show ?thesis by (simp add: same_sessions_refl)
  next
    case False
    with made obtain cl c' w' r w'' where g: "getOrCreateNodeHTTPClient nodeID c w = (cl, c', w')"
      and n: "NewConnectionWithClient (Config c) url nodeID mode leader emptyToken cl w' = (r, w'')"
      and eq: "conn = r" "c0 = c'" "w0 = w''"
      by (auto split: prod.splits)
    from getOrCreateNodeHTTPClient_world [OF g] NewConnectionWithClient_world [OF n] eq
    show ?thesis by simp
  qed
  obtain err w2 where tok: "newOrRefreshToken e (Config c0) conn False w0 = (err, w2)"
    by (metis surj_pair)
  from assms made tok have out: "c1 = c0" "w1 = w2" "\<forall>x. res = Inr x \<longrightarrow> x = conn"
    by (auto simp: createAndConnectNewConnection_def split: option.splits)
  from newOrRefreshToken_world [OF tok] fresh out show ?thesis
    by auto
qed

lemma createPoolConnections_loop_world:
  assumes "createPoolConnections_loop e url nodeID mode leader n acc c w = (res, c', w')"
      and "\<forall>r\<in>set acc. r < nextRef w \<and> NodeID (heap w r) = norm_id nodeID"
  shows "same_sessions c c' \<and>
         (\<forall>conns. res = Inr conns \<longrightarrow>
            length conns \<le> length acc + n \<and>
            (\<forall>r\<in>set conns. NodeID (heap w' r) = norm_id nodeID))"
  using assms
proof (induction n arbitrary: acc c w)
  case 0
  then show ?case by (auto simp: same_sessions_refl)
next
  case (Suc n)
  obtain r1 c1 w1 where one: "createAndConnectNewConnection e url nodeID mode leader c w = (r1, c1, w1)"
    by (metis prod_cases3)
  note W = createAndConnectNewConnection_world [OF one]
  have old: "\<forall>r\<in>set acc. r < nextRef w1 \<and> NodeID (heap w1 r) = norm_id nodeID"
    using Suc.prems(2) W by auto
  show ?case
  proof (cases r1)
    case (Inl err)
    show ?thesis
    proof (cases "\<exists>msg. err = Panic msg")
      case True
      with Suc.prems(1) one Inl have "res = Inl err" "c' = c1" by auto
      with W show ?thesis by simp
    next
      case False
      with Suc.prems(1) one Inl
      have rest: "createPoolConnections_loop e url nodeID mode leader n acc c1 w1 = (res, c', w')"
        by (cases err) auto
      from Suc.IH [OF rest old] W show ?thesis
        by (auto intro: same_sessions_trans)
    qed
  next
    case (Inr conn)
    with Suc.prems(1) one
    have rest: "createPoolConnections_loop e url nodeID mode leader n (acc @ [conn]) c1 w1 = (res, c', w')"
      by simp
    have conn: "conn = nextRef w" using W Inr by simp
    have new: "\<forall>r\<in>set (acc @ [conn]). r < nextRef w1 \<and> NodeID (heap w1 r) = norm_id nodeID"
      using old W conn by auto
    from Suc.IH [OF rest new] W show ?thesis
      by (auto intro: same_sessions_trans)
  qed
qed

lemma createPoolConnections_world:
  assumes "createPoolConnections e url nodeID mode leader cnt c w = (res, c', w')"
  shows "same_sessions c c' \<and>
         (\<forall>conns. res = Inr conns \<longrightarrow>
            int (length conns) \<le> max cnt 0 \<and>
            (\<forall>r\<in>set conns. NodeID (heap w' r) = norm_id nodeID))"
proof (cases "cnt \<le> 0")
  case True
  with assms show ?thesis by (auto simp: createPoolConnections_def same_sessions_refl)
next
  case False
  with assms have "createPoolConnections_loop e url nodeID mode leader (nat cnt) [] c w = (res, c', w')"
    by (simp add: createPoolConnections_def)
  from createPoolConnections_loop_world [OF this] False show ?thesis by auto
qed


lemma SizeForNode_cong:
  "nodeConnections p = nodeConnections q \<Longrightarrow> SizeForNode p k = SizeForNode q k"
  by (simp add: SizeForNode_def)

lemma SizeForNode_add_node_batch:
  "SizeForNode (add_node_batch nid cs p) k = SizeForNode p k + (if k = nid then int (length cs) else 0)"
  by (simp add: add_node_batch_def SizeForNode_def conns_at_def Let_def split: option.splits)

lemma AddBatch_one_node:
  assumes "conns \<noteq> []" and "\<forall>r\<in>set conns. NodeID (h r) = nid"
  shows "AddBatch h [nid] conns p = add_node_batch nid conns p"
proof -
  have "nid \<in> (\<lambda>c. NodeID (h c)) ` set conns"
    using assms by (cases conns) auto
  moreover have "filter (\<lambda>c. NodeID (h c) = nid) conns = conns"
    using assms(2) by (simp add: filter_id_conv)
  ultimately have "fmlookup (connsByNode h conns) nid = Some conns"
    by (simp add: connsByNode_lookup)
  with assms(1) show ?thesis by (simp add: AddBatch_def batch_step_def)
qed

lemma stats_frame:
  "writePool (put_stats k b s c) = writePool c" "readPool (put_stats k b s c) = readPool c"
  "poolConfig (put_stats k b s c) = poolConfig c"
  "writePool (snd (getOrCreateNodeStats now k b c)) = writePool c"
  "readPool (snd (getOrCreateNodeStats now k b c)) = readPool c"
  "poolConfig (snd (getOrCreateNodeStats now k b c)) = poolConfig c"
  by (simp_all add: put_stats_def getOrCreateNodeStats_def Let_def split: option.splits)

lemma NewClient_maxWritePool:
  "NewClient defaults config w = (c, w') \<Longrightarrow>
     maxWritePool (readPool c) = MaxWritePoolSize (poolConfig c) \<and>
     maxWritePool (writePool c) = MaxWritePoolSize (poolConfig c)"
  by (auto simp: NewClient_def NewConnectionPool_def Let_def split: prod.splits)

text \<open>
  C5. scaleUpNode for write intent, on a client whose pools carry the configured
  \<open>MaxWritePoolSize\<close> (NewClient sets it so) and for a connection with a node id: it computes
  \<open>add = min(ScaleUpBatchSize, MaxWritePoolSize - current size of the node's write bucket)\<close>;
  when that is not positive it returns with client and world unchanged; otherwise the node's
  write bucket grows by at most \<open>add\<close> sessions, no other bucket changes, and a bucket that
  held at most \<open>MaxWritePoolSize\<close> sessions still does.
\<close>

theorem scaleUpNode_write_bounded:
  assumes "NodeID (heap w conn) \<noteq> []"
      and "maxWritePool (readPool c) = MaxWritePoolSize (poolConfig c)"
      and "scaleUpNode e [NodeID (heap w conn)] conn True c w = (err, c', w')"
  shows "let nid = NodeID (heap w conn);
             cur = SizeForNode (writePool c) nid;
             add = min (ScaleUpBatchSize (poolConfig c)) (MaxWritePoolSize (poolConfig c) - cur)
         in (add \<le> 0 \<longrightarrow> c' = c \<and> w' = w) \<and>
            cur \<le> SizeForNode (writePool c') nid \<and>
            SizeForNode (writePool c') nid \<le> cur + max add 0 \<and>
            (cur \<le> MaxWritePoolSize (poolConfig c) \<longrightarrow>
               SizeForNode (writePool c') nid \<le> MaxWritePoolSize (poolConfig c)) \<and>
            (\<forall>k. k \<noteq> nid \<longrightarrow> SizeForNode (writePool c') k = SizeForNode (writePool c) k) \<and>
            maxWritePool (readPool c') = MaxWritePoolSize (poolConfig c') \<and>
            MaxWritePoolSize (poolConfig c') = MaxWritePoolSize (poolConfig c)"
proof -
  let ?nid = "NodeID (heap w conn)"
  let ?cur = "SizeForNode (writePool c) ?nid"
  let ?add = "min (ScaleUpBatchSize (poolConfig c)) (maxWritePool (readPool c) - ?cur)"
  have norm: "norm_id ?nid = ?nid" using assms(1) by (simp add: norm_id_def)
  have goal: "(?add \<le> 0 \<longrightarrow> c' = c \<and> w' = w) \<and>
            ?cur \<le> SizeForNode (writePool c') ?nid \<and>
            SizeForNode (writePool c') ?nid \<le> ?cur + max ?add 0 \<and>
            (\<forall>k. k \<noteq> ?nid \<longrightarrow> SizeForNode (writePool c') k = SizeForNode (writePool c) k) \<and>
            maxWritePool (readPool c') = MaxWritePoolSize (poolConfig c') \<and>
            MaxWritePoolSize (poolConfig c') = MaxWritePoolSize (poolConfig c)"
  proof (cases "findMaxPoolsByNodeID c ?nid")
    case (Inl x)
    with assms(3) have "c' = c" "w' = w"
      by (simp_all add: scaleUpNode_def Let_def)
    then show ?thesis using assms(2) by simp
  next
    case (Inr found)
    show ?thesis
    proof (cases "?add \<le> 0")
      case True
      with assms(3) Inr have "c' = c" "w' = w"
        by (simp_all add: scaleUpNode_def Let_def)
      then show ?thesis using assms(2) by simp
    next
      case False
      obtain res c1 w1 where made:
        "createPoolConnections e (URL (heap w conn)) ?nid (Mode (heap w conn)) (IsLeader (heap w conn))
           ?add c w = (res, c1, w1)"
        by (metis prod_cases3)
      from createPoolConnections_world [OF made]
      have same: "same_sessions c c1"
        and batch: "\<And>conns. res = Inr conns \<Longrightarrow>
                      int (length conns) \<le> max ?add 0 \<and> (\<forall>r\<in>set conns. NodeID (heap w1 r) = ?nid)"
        using norm by auto
      have size1: "\<And>k. SizeForNode (writePool c1) k = SizeForNode (writePool c) k"
        using same by (intro SizeForNode_cong) (simp add: same_sessions_def)
      have cfg1: "maxWritePool (readPool c1) = MaxWritePoolSize (poolConfig c1)"
                 "poolConfig c1 = poolConfig c"
        using same assms(2) by (simp_all add: same_sessions_def)
      show ?thesis
      proof (cases res)
        case (Inl x)
        with assms(3) \<open>findMaxPoolsByNodeID c ?nid = Inr found\<close> False made have "c' = c1"
          by (simp add: scaleUpNode_def Let_def)
        then show ?thesis using size1 cfg1 False by simp
      next
        case (Inr connections)
        show ?thesis
        proof (cases "connections = []")
          case True
          with assms(3) \<open>findMaxPoolsByNodeID c ?nid = Inr found\<close> False made Inr have "c' = c1"
            by (simp add: scaleUpNode_def Let_def)
          then show ?thesis using size1 cfg1 False by simp
        next
          case ne: False
          from batch [OF Inr] have len: "int (length connections) \<le> max ?add 0"
            and uni: "\<forall>r\<in>set connections. NodeID (heap w1 r) = ?nid" by simp_all
          let ?c2 = "c1\<lparr>writePool := AddBatch (heap w1) [?nid] connections (writePool c1)\<rparr>"
          obtain stats c3 where st: "getOrCreateNodeStats (clock w1) ?nid True ?c2 = (stats, c3)"
            by (metis surj_pair)
          have c': "c' = put_stats ?nid True
                           (stats\<lparr>CurrentConnections := CurrentConnections stats + int (length connections),
                                  ScaleUpEvents := ScaleUpEvents stats + 1\<rparr>) c3"
            using assms(3) \<open>findMaxPoolsByNodeID c ?nid = Inr found\<close> False made Inr ne st
            by (simp add: scaleUpNode_def Let_def)
          have c3: "c3 = snd (getOrCreateNodeStats (clock w1) ?nid True ?c2)" using st by simp
          have wp: "writePool c' = add_node_batch ?nid connections (writePool c1)"
            by (simp add: c' c3 stats_frame AddBatch_one_node [OF ne uni])
          have cfg: "poolConfig c' = poolConfig c1" "readPool c' = readPool c1"
            by (simp_all add: c' c3 stats_frame)
          have sz: "\<And>k. SizeForNode (writePool c') k =
                         SizeForNode (writePool c) k + (if k = ?nid then int (length connections) else 0)"
            by (simp add: wp SizeForNode_add_node_batch size1)
          show ?thesis
            using sz len cfg cfg1 False by simp
        qed
      qed
    qed
  qed
  then have "?cur \<le> MaxWritePoolSize (poolConfig c) \<longrightarrow>
               SizeForNode (writePool c') ?nid \<le> MaxWritePoolSize (poolConfig c)"
    using assms(2) by auto
  with goal show ?thesis
    unfolding Let_def using assms(2) by simp
qed

theorem scaleUpNode_write_bounded_witness:
  "NodeID (heap ex_world 0) \<noteq> [] \<and>
   maxWritePool (readPool ex_client_no_writers) = MaxWritePoolSize (poolConfig ex_client_no_writers) \<and>
   SizeForNode (writePool ex_client_no_writers) ''a'' = 0 \<and>
   SizeForNode (writePool (fst (snd (scaleUpNode ex_env [NodeID (heap ex_world 0)] 0 True
                                       ex_client_no_writers ex_world)))) ''a'' = 1 \<and>
   SizeForNode (writePool (fst (snd (scaleUpNode ex_env [NodeID (heap ex_world 0)] 0 True
                                       ex_client_no_writers ex_world)))) (NodeID (heap ex_world 0))
     \<le> MaxWritePoolSize (poolConfig ex_client_no_writers)"
proof -
  let ?run = "scaleUpNode ex_env [NodeID (heap ex_world 0)] 0 True ex_client_no_writers ex_world"
  have n: "NodeID (heap ex_world 0) \<noteq> []"
    by (simp add: ex_world_def ex_heap_def)
  have m: "maxWritePool (readPool ex_client_no_writers) = MaxWritePoolSize (poolConfig ex_client_no_writers)"
    by (simp add: ex_client_no_writers_def ex_client_def ex_poolConfig_def NewConnectionPool_def)
  have z: "SizeForNode (writePool ex_client_no_writers) ''a'' = 0"
    by (simp add: ex_client_no_writers_def ex_client_def NewConnectionPool_def SizeForNode_def)
  have z': "SizeForNode (writePool ex_client_no_writers) (NodeID (heap ex_world 0)) = 0"
    by (simp add: ex_client_no_writers_def ex_client_def NewConnectionPool_def SizeForNode_def)
  have one: "SizeForNode (writePool (fst (snd ?run))) ''a'' = 1"
    by (simp add: scaleUpNode_def findMaxPoolsByNodeID_def createPoolConnections_def
        createAndConnectNewConnection_def getOrCreateNodeHTTPClient_def NewHTTPClient_def
        NewConnectionWithClient_def newOrRefreshToken_def sendHttpRequest_def createHttpRequest_def
        store_new_token_def getAndCheckResponseData_def convertDataToToken_def MapToStructSlow_def
        string_field_def userCredentialsFromConfig_def AddBatch_def batch_step_def connsByNode_def
        group_conn_def add_node_batch_def getOrCreateNodeStats_def put_stats_def stats_map_def
        SizeForNode_def conns_at_def ex_env_def ex_token_response_def ex_client_no_writers_def
        ex_client_def ex_world_def ex_heap_def ex_poolConfig_def ex_config_def ex_status_def
        ex_stats_def NewConnectionPool_def emptyToken_def Let_def)
  have run: "?run = (fst ?run, fst (snd ?run), snd (snd ?run))" by simp
  from scaleUpNode_write_bounded [OF n m run]
  have "SizeForNode (writePool (fst (snd ?run))) (NodeID (heap ex_world 0))
          \<le> MaxWritePoolSize (poolConfig ex_client_no_writers)"
    using z' by (simp add: Let_def ex_client_no_writers_def ex_client_def ex_poolConfig_def)
  with n m z one show ?thesis by simp
qed

section \<open>Tokens and the dispatcher\<close>

lemma convertDataToToken_Inr_iff:
  "convertDataToToken data = Inr t \<longleftrightarrow>
     (\<exists>m. data = JObj m \<and> tt_Token t \<noteq> [] \<and> tt_Refresh t \<noteq> [] \<and>
          fmlookup m ''token'' = Some (JStr (tt_Token t)) \<and>
          fmlookup m ''refresh'' = Some (JStr (tt_Refresh t)))"
proof
  assume ok: "convertDataToToken data = Inr t"
  then obtain m where m: "data = JObj m"
    by (cases data) (simp_all add: convertDataToToken_def)
  with ok have t: "t = MapToStructSlow m" and ne: "tt_Token (MapToStructSlow m) \<noteq> []"
    "tt_Refresh (MapToStructSlow m) \<noteq> []"
    by (auto simp: convertDataToToken_def Let_def split: if_splits)
  from ne have "fmlookup m ''token'' = Some (JStr (tt_Token (MapToStructSlow m)))"
    "fmlookup m ''refresh'' = Some (JStr (tt_Refresh (MapToStructSlow m)))"
    by (auto simp: MapToStructSlow_def string_field_def split: option.splits json.splits)
  with m t ne show "\<exists>m. data = JObj m \<and> tt_Token t \<noteq> [] \<and> tt_Refresh t \<noteq> [] \<and>
          fmlookup m ''token'' = Some (JStr (tt_Token t)) \<and>
          fmlookup m ''refresh'' = Some (JStr (tt_Refresh t))"
    by blast
next
  assume "\<exists>m. data = JObj m \<and> tt_Token t \<noteq> [] \<and> tt_Refresh t \<noteq> [] \<and>
          fmlookup m ''token'' = Some (JStr (tt_Token t)) \<and>
          fmlookup m ''refresh'' = Some (JStr (tt_Refresh t))"
  then obtain m where m: "data = JObj m" and ne: "tt_Token t \<noteq> []" "tt_Refresh t \<noteq> []"
    and look: "fmlookup m ''token'' = Some (JStr (tt_Token t))"
              "fmlookup m ''refresh'' = Some (JStr (tt_Refresh t))"
    by blast
  have "MapToStructSlow m = t"
    by (simp add: MapToStructSlow_def string_field_def look)
  with m ne show "convertDataToToken data = Inr t"
    by (simp add: convertDataToToken_def)
qed

lemma convertDataToToken_Inl:
  "convertDataToToken data = Inl err \<Longrightarrow> err = UnexpectedFormat \<or> err = TokenNotFound"
  by (cases data) (auto simp: convertDataToToken_def Let_def split: if_splits)

lemma newOrRefreshToken_failure_keeps_heap:
  assumes "newOrRefreshToken e config r refresh w = (Some err, w')"
  shows "heap w' = heap w"
proof -
  have store: "\<And>resp w0. store_new_token r resp w0 = (Some err, w') \<Longrightarrow> heap w' = heap w0"
    by (auto simp: store_new_token_def split: sum.splits)
  show ?thesis
  proof (cases refresh)
    case True
    show ?thesis
    proof (cases "tt_Refresh (Token (heap w r)) = []")
      case True
      with assms \<open>refresh\<close> show ?thesis by (simp add: newOrRefreshToken_def)
    next
      case False
      obtain resp x w0 where sent:
        "sendHttpRequest e (heap w r) ''POST'' ''/db/refresh''
           (Some (JObj (fmupd ''refresh_token'' (JStr (tt_Refresh (Token (heap w r)))) fmempty))) config False w
         = ((resp, x), w0)"
        by (metis surj_pair)
      note W = sendHttpRequest_world [OF sent]
      show ?thesis
      proof (cases x)
        case None
        with assms \<open>refresh\<close> False sent have "store_new_token r resp w0 = (Some err, w')"
          by (simp add: newOrRefreshToken_def Let_def)
        from store [OF this] W show ?thesis by simp
      next
        case (Some a)
        with assms \<open>refresh\<close> False sent have "w' = w0"
          by (auto simp: newOrRefreshToken_def Let_def split: option.splits)
        with W show ?thesis by simp
      qed
    qed
  next
    case False
    obtain resp x w0 where sent:
      "sendHttpRequest e (heap w r) ''POST'' ''/db/connect'' (Some (userCredentialsFromConfig config))
         config False w = ((resp, x), w0)"
      by (metis surj_pair)
    note W = sendHttpRequest_world [OF sent]
    show ?thesis
    proof (cases x)
      case None
      with assms False sent have "store_new_token r resp w0 = (Some err, w')"
        by (simp add: newOrRefreshToken_def Let_def)
      from store [OF this] W show ?thesis by simp
    next
      case (Some a)
      with assms False sent have "w' = w0"
        by (auto simp: newOrRefreshToken_def Let_def)
      with W show ?thesis by simp
    qed
  qed
qed

text \<open>
  C8. convertDataToToken succeeds exactly when the data is a mapping that holds a non-empty
  string under \<open>token\<close> and one under \<open>refresh\<close>, and then returns that pair; every failure
  is one of the two malformed-token errors. When newOrRefreshToken fails, for that or any other
  reason, the connection's token pair and last-refresh time are the ones it had.
\<close>

theorem token_extraction:
  "(convertDataToToken data = Inr t \<longleftrightarrow>
      (\<exists>m. data = JObj m \<and> tt_Token t \<noteq> [] \<and> tt_Refresh t \<noteq> [] \<and>
           fmlookup m ''token'' = Some (JStr (tt_Token t)) \<and>
           fmlookup m ''refresh'' = Some (JStr (tt_Refresh t)))) \<and>
   (convertDataToToken data = Inl err \<longrightarrow> err = UnexpectedFormat \<or> err = TokenNotFound) \<and>
   (newOrRefreshToken e config r refresh w = (Some err, w') \<longrightarrow>
      Token (heap w' r) = Token (heap w r) \<and> LastRefresh (heap w' r) = LastRefresh (heap w r))"
  using convertDataToToken_Inr_iff [of data t] convertDataToToken_Inl [of data err]
    newOrRefreshToken_failure_keeps_heap [of e config r refresh w err w']
  by auto

theorem token_extraction_witness:
  "convertDataToToken (JObj (fmupd ''token'' (JStr ''t1'') fmempty)) = Inl TokenNotFound \<and>
   convertDataToToken (JObj (fmupd ''refresh'' (JStr ''r1'') (fmupd ''token'' (JStr ''t1'') fmempty)))
     = Inr \<lparr>tt_Token = ''t1'', tt_Refresh = ''r1''\<rparr> \<and>
   fst (newOrRefreshToken ex_env_no_refresh_token ex_config 0 False ex_world) = Some TokenNotFound \<and>
   Token (heap (snd (newOrRefreshToken ex_env_no_refresh_token ex_config 0 False ex_world)) 0)
     = Token (heap ex_world 0) \<and>
   LastRefresh (heap (snd (newOrRefreshToken ex_env_no_refresh_token ex_config 0 False ex_world)) 0)
     = LastRefresh (heap ex_world 0)"
proof -
  let ?run = "newOrRefreshToken ex_env_no_refresh_token ex_config 0 False ex_world"
  have bad: "convertDataToToken (JObj (fmupd ''token'' (JStr ''t1'') fmempty)) = Inl TokenNotFound"
    by (simp add: convertDataToToken_def MapToStructSlow_def string_field_def)
  have good: "fmlookup (fmupd ''refresh'' (JStr ''r1'') (fmupd ''token'' (JStr ''t1'') fmempty)) ''token''
                = Some (JStr (tt_Token \<lparr>tt_Token = ''t1'', tt_Refresh = ''r1''\<rparr>)) \<and>
              fmlookup (fmupd ''refresh'' (JStr ''r1'') (fmupd ''token'' (JStr ''t1'') fmempty)) ''refresh''
                = Some (JStr (tt_Refresh \<lparr>tt_Token = ''t1'', tt_Refresh = ''r1''\<rparr>))"
    by simp
  have ok: "convertDataToToken (JObj (fmupd ''refresh'' (JStr ''r1'') (fmupd ''token'' (JStr ''t1'') fmempty)))
              = Inr \<lparr>tt_Token = ''t1'', tt_Refresh = ''r1''\<rparr>"
    using token_extraction [of "JObj (fmupd ''refresh'' (JStr ''r1'') (fmupd ''token'' (JStr ''t1'') fmempty))"
        "\<lparr>tt_Token = ''t1'', tt_Refresh = ''r1''\<rparr>"] good
    by simp
  have failed: "fst ?run = Some TokenNotFound"
    by (simp add: newOrRefreshToken_def sendHttpRequest_def createHttpRequest_def store_new_token_def
        getAndCheckResponseData_def convertDataToToken_def MapToStructSlow_def string_field_def
        userCredentialsFromConfig_def ex_env_no_refresh_token_def ex_config_def ex_world_def
        ex_heap_def Let_def)
  then have run: "?run = (Some TokenNotFound, snd ?run)"
    by (metis prod.collapse)
  from token_extraction [of JNull emptyToken TokenNotFound ex_env_no_refresh_token ex_config 0 False
      ex_world "snd ?run"] run
  have "Token (heap (snd ?run) 0) = Token (heap ex_world 0) \<and>
        LastRefresh (heap (snd ?run) 0) = LastRefresh (heap ex_world 0)"
    by simp
  with bad ok failed show ?thesis by simp
qed

lemma sendRequestToPool_transport_success:
  assumes "getAndCheckToken (heap w r) withToken = None"
      and "sendHttpRequest e (heap w r) method endpoint body (Config c) withToken w = ((resp, None), w1)"
  shows "sendRequestToPool e (Some r) method endpoint body withToken autorefresh fallback c w =
           (getAndCheckResponseData resp, c, w1)"
  using assms by (simp add: sendRequestToPool.simps Let_def)

text \<open>
  C1. A token-bearing request with auto-refresh on, to a server that answers the first request
  with HTTP 401 and no transport error and would hand out fresh tokens afterwards. The dispatcher
  sends that one request and returns the decoding error of the 401 body: no refresh, no retry,
  with or without fallback to the leader. The refresh block is entered only when
  \<open>http.Client.Do\<close> returned an error.
\<close>

theorem no_refresh_on_plain_401:
  "sendRequestToPool ex_env_expired (Some 0) ''POST'' ''/db/api/query'' None True True False
     ex_client ex_world =
     (Inl (RequestError ''token expired''), ex_client, ex_world\<lparr>sent := [ex_query]\<rparr>) \<and>
   sendRequestToPool ex_env_expired (Some 0) ''POST'' ''/db/api/query'' None True True True
     ex_client ex_world =
     (Inl (RequestError ''token expired''), ex_client, ex_world\<lparr>sent := [ex_query]\<rparr>)"
proof -
  have tok: "getAndCheckToken (heap ex_world 0) True = None"
    by (simp add: getAndCheckToken_def ex_world_def ex_heap_def)
  have sent: "sendHttpRequest ex_env_expired (heap ex_world 0) ''POST'' ''/db/api/query'' None
                (Config ex_client) True ex_world =
              ((Some ex_expired_response, None), ex_world\<lparr>sent := [ex_query]\<rparr>)"
    by (simp add: sendHttpRequest_def createHttpRequest_def ex_env_expired_def ex_world_def ex_heap_def
        ex_client_def ex_config_def ex_query_def Let_def)
  have decoded: "getAndCheckResponseData (Some ex_expired_response) = Inl (RequestError ''token expired'')"
    by (simp add: getAndCheckResponseData_def ex_expired_response_def)
  show ?thesis
    using sendRequestToPool_transport_success [OF tok sent] decoded by simp
qed

text \<open>
  The refresh-and-retry path itself works in the model: it runs when the 401 response comes
  together with an error.
\<close>

lemma refresh_and_retry_when_error_accompanies_401:
  "fst (sendRequestToPool ex_env_expired_with_error (Some 0) ''POST'' ''/db/api/query'' None True True False
          ex_client ex_world) = Inr (JObj (fmupd ''refresh'' (JStr ''r1'') (fmupd ''token'' (JStr ''t1'') fmempty))) \<and>
   map rq_url (sent (snd (snd (sendRequestToPool ex_env_expired_with_error (Some 0) ''POST''
          ''/db/api/query'' None True True False ex_client ex_world)))) =
     [''http://node/db/api/query'', ''http://node/db/refresh'', ''http://node/db/api/query'']"
  by (simp add: sendRequestToPool.simps refresh_and_retry_def tryRefreshAndRenew_def
      newOrRefreshToken_def sendHttpRequest_def createHttpRequest_def store_new_token_def
      getAndCheckResponseData_def getAndCheckToken_def convertDataToToken_def MapToStructSlow_def
      string_field_def ex_env_expired_with_error_def ex_expired_response_def ex_token_response_def
      ex_world_def ex_heap_def ex_client_def ex_config_def Let_def)

end
